theory Spec2Isabelle
  imports Complex_Main "HOL-Library.Log_Nat"
begin

section \<open>JavaScript numbers\<close>

text \<open>
  A JavaScript Number is an IEEE 754 binary64 value.  It is modelled as a rational, the two
  infinities or NaN; every arithmetic operation computes the exact rational result and rounds
  it to the nearest binary64 value, ties to even, with gradual underflow below \<open>2 powi - 1022\<close>
  and overflow to an infinity from \<open>2 ^ 1024 - 2 ^ 970\<close> on.  The sign of a zero is not
  modelled: JavaScript's \<open><\<close> and \<open>===\<close> and the canvas treat both zeros alike, and the
  program divides by the literals 360 and 180 and by window sizes only.
\<close>

datatype number = NaN | NegInf | Fin rat | PosInf

definition ilog2 :: "rat \<Rightarrow> int" where
  "ilog2 q = (let (a, b) = quotient_of \<bar>q\<bar>; k = bitlen a - bitlen b
              in if 2 powi k \<le> \<bar>q\<bar> then k else k - 1)"

definition round_half_even :: "rat \<Rightarrow> int" where
  "round_half_even q = (let f = \<lfloor>q\<rfloor>; d = q - of_int f
     in if d < 1 / 2 then f else if 1 / 2 < d then f + 1 else if even f then f else f + 1)"

definition ulp :: "rat \<Rightarrow> rat" where
  "ulp q = 2 powi (max (ilog2 q) (- 1022) - 52)"

definition round_magnitude :: "rat \<Rightarrow> rat" where
  "round_magnitude q = of_int (round_half_even (\<bar>q\<bar> / ulp q)) * ulp q"

definition fl :: "rat \<Rightarrow> number" where
  "fl q = (let r = round_magnitude q
           in if 2 ^ 1024 \<le> r then (if 0 < q then PosInf else NegInf)
              else Fin (sgn q * r))"

fun num_neg :: "number \<Rightarrow> number" where
  "num_neg NaN = NaN"
| "num_neg NegInf = PosInf"
| "num_neg (Fin q) = Fin (- q)"
| "num_neg PosInf = NegInf"

fun num_sgn :: "number \<Rightarrow> rat" where
  "num_sgn NaN = 0"
| "num_sgn NegInf = - 1"
| "num_sgn (Fin q) = sgn q"
| "num_sgn PosInf = 1"

definition inf_of_sign :: "rat \<Rightarrow> number" where
  "inf_of_sign s = (if s = 0 then NaN else if 0 < s then PosInf else NegInf)"

fun num_add :: "number \<Rightarrow> number \<Rightarrow> number" where
  "num_add (Fin a) (Fin b) = fl (a + b)"
| "num_add NaN b = NaN"
| "num_add a NaN = NaN"
| "num_add PosInf NegInf = NaN"
| "num_add NegInf PosInf = NaN"
| "num_add PosInf b = PosInf"
| "num_add a PosInf = PosInf"
| "num_add NegInf b = NegInf"
| "num_add a NegInf = NegInf"

definition num_sub :: "number \<Rightarrow> number \<Rightarrow> number" where
  "num_sub a b = num_add a (num_neg b)"

fun num_mul :: "number \<Rightarrow> number \<Rightarrow> number" where
  "num_mul (Fin a) (Fin b) = fl (a * b)"
| "num_mul NaN b = NaN"
| "num_mul a NaN = NaN"
| "num_mul a b = inf_of_sign (num_sgn a * num_sgn b)"

fun num_div :: "number \<Rightarrow> number \<Rightarrow> number" where
  "num_div (Fin a) (Fin b) = (if b = 0 then inf_of_sign (sgn a) else fl (a / b))"
| "num_div NaN b = NaN"
| "num_div a NaN = NaN"
| "num_div (Fin a) b = Fin 0"
| "num_div a (Fin b) = inf_of_sign (num_sgn a * (if b < 0 then - 1 else 1))"
| "num_div a b = NaN"

text \<open>The comparisons \<open><\<close> and \<open><=\<close> of two Numbers.\<close>

fun num_lt :: "number \<Rightarrow> number \<Rightarrow> bool" where
  "num_lt (Fin a) (Fin b) = (a < b)"
| "num_lt NaN b = False"
| "num_lt a NaN = False"
| "num_lt a NegInf = False"
| "num_lt PosInf b = False"
| "num_lt NegInf b = True"
| "num_lt a PosInf = True"

fun num_le :: "number \<Rightarrow> number \<Rightarrow> bool" where
  "num_le (Fin a) (Fin b) = (a \<le> b)"
| "num_le NaN b = False"
| "num_le a NaN = False"
| "num_le NegInf b = True"
| "num_le a PosInf = True"
| "num_le a b = False"

section \<open>Values produced by JSON.parse\<close>

text \<open>
  The datasets are whatever \<open>JSON.parse\<close> returns.  \<open>JObj\<close> lists the members in source
  order; a later duplicate key wins.  \<open>undefined\<close>, which reading an absent property yields,
  is \<open>None\<close>.  A string is a list of code units.
\<close>

datatype json =
    JNull
  | JBool bool
  | JNum number
  | JStr string
  | JArr "json list"
  | JObj "(string \<times> json) list"

type_synonym jsval = "json option"

datatype error = TypeError | InvalidStateError

text \<open>
  The conversions of ECMAScript that the program reaches only on operands that are not
  numbers are built into the engine, not part of the repository; they are parameters of the
  model: \<open>StringToNumber\<close> (ToNumber on a String), \<open>NumberToString\<close> (ToString on a Number)
  and \<open>ObjectToPrimitive\<close> (ToPrimitive on an Array or Object, which yields a String or
  throws).
\<close>

record runtime =
  StringToNumber :: "string \<Rightarrow> number"
  NumberToString :: "number \<Rightarrow> string"
  ObjectToPrimitive :: "json \<Rightarrow> error + string"

fun truthy :: "jsval \<Rightarrow> bool" where
  "truthy None = False"
| "truthy (Some JNull) = False"
| "truthy (Some (JBool b)) = b"
| "truthy (Some (JNum n)) = (n \<noteq> Fin 0 \<and> n \<noteq> NaN)"
| "truthy (Some (JStr s)) = (s \<noteq> [])"
| "truthy (Some (JArr xs)) = True"
| "truthy (Some (JObj kvs)) = True"

definition own_property :: "(string \<times> json) list \<Rightarrow> string \<Rightarrow> jsval" where
  "own_property kvs k = map_of (rev kvs) k"

definition index_of :: "string \<Rightarrow> nat option" where
  "index_of k = (if k = ''0'' then Some 0 else if k = ''1'' then Some 1 else None)"

definition nth_opt :: "'a list \<Rightarrow> nat \<Rightarrow> 'a option" where
  "nth_opt xs i = (if i < length xs then Some (xs ! i) else None)"

text \<open>
  Reading property \<open>k\<close> of a value, for the names the program reads: \<open>features\<close>,
  \<open>geometry\<close>, \<open>type\<close>, \<open>coordinates\<close>, \<open>length\<close>, \<open>0\<close> and \<open>1\<close>.  Reading a property of
  \<open>null\<close> or \<open>undefined\<close> throws a TypeError.
\<close>

fun getProp :: "jsval \<Rightarrow> string \<Rightarrow> error + jsval" where
  "getProp None k = Inl TypeError"
| "getProp (Some JNull) k = Inl TypeError"
| "getProp (Some (JBool b)) k = Inr None"
| "getProp (Some (JNum n)) k = Inr None"
| "getProp (Some (JStr s)) k =
     Inr (if k = ''length'' then Some (JNum (Fin (of_nat (length s))))
          else case index_of k of
                 None \<Rightarrow> None
               | Some i \<Rightarrow> map_option (\<lambda>c. JStr [c]) (nth_opt s i))"
| "getProp (Some (JArr xs)) k =
     Inr (if k = ''length'' then Some (JNum (Fin (of_nat (length xs))))
          else case index_of k of None \<Rightarrow> None | Some i \<Rightarrow> nth_opt xs i)"
| "getProp (Some (JObj kvs)) k = Inr (own_property kvs k)"

definition bindE :: "error + 'a \<Rightarrow> ('a \<Rightarrow> error + 'b) \<Rightarrow> error + 'b" where
  "bindE m f = (case m of Inl e \<Rightarrow> Inl e | Inr a \<Rightarrow> f a)"

fun ToPrimitive :: "runtime \<Rightarrow> jsval \<Rightarrow> error + jsval" where
  "ToPrimitive rt (Some (JArr xs)) =
     bindE (ObjectToPrimitive rt (JArr xs)) (\<lambda>s. Inr (Some (JStr s)))"
| "ToPrimitive rt (Some (JObj kvs)) =
     bindE (ObjectToPrimitive rt (JObj kvs)) (\<lambda>s. Inr (Some (JStr s)))"
| "ToPrimitive rt v = Inr v"

text \<open>ToNumber and ToString on a primitive value.\<close>

fun prim_to_number :: "runtime \<Rightarrow> jsval \<Rightarrow> number" where
  "prim_to_number rt None = NaN"
| "prim_to_number rt (Some JNull) = Fin 0"
| "prim_to_number rt (Some (JBool b)) = Fin (if b then 1 else 0)"
| "prim_to_number rt (Some (JNum n)) = n"
| "prim_to_number rt (Some (JStr s)) = StringToNumber rt s"
| "prim_to_number rt (Some v) = NaN"

fun prim_to_string :: "runtime \<Rightarrow> jsval \<Rightarrow> string" where
  "prim_to_string rt None = ''undefined''"
| "prim_to_string rt (Some JNull) = ''null''"
| "prim_to_string rt (Some (JBool b)) = (if b then ''true'' else ''false'')"
| "prim_to_string rt (Some (JNum n)) = NumberToString rt n"
| "prim_to_string rt (Some (JStr s)) = s"
| "prim_to_string rt (Some v) = []"

definition ToNumber :: "runtime \<Rightarrow> jsval \<Rightarrow> error + number" where
  "ToNumber rt v = bindE (ToPrimitive rt v) (\<lambda>p. Inr (prim_to_number rt p))"

fun is_string :: "jsval \<Rightarrow> bool" where
  "is_string (Some (JStr s)) = True"
| "is_string v = False"

text \<open>
  The operators as the program uses them: \<open>a + n\<close>, \<open>n - b\<close>, \<open>a * n\<close> and \<open>a < n\<close>, where
  \<open>n\<close> is a number and \<open>a\<close>, \<open>b\<close> are any values.  \<open>+\<close> concatenates when its left operand
  converts to a string.
\<close>

definition js_add :: "runtime \<Rightarrow> jsval \<Rightarrow> number \<Rightarrow> error + jsval" where
  "js_add rt a n = bindE (ToPrimitive rt a) (\<lambda>p.
     if is_string p then Inr (Some (JStr (prim_to_string rt p @ NumberToString rt n)))
     else Inr (Some (JNum (num_add (prim_to_number rt p) n))))"

definition js_rsub :: "runtime \<Rightarrow> number \<Rightarrow> jsval \<Rightarrow> error + number" where
  "js_rsub rt n b = bindE (ToNumber rt b) (\<lambda>m. Inr (num_sub n m))"

definition js_mul :: "runtime \<Rightarrow> jsval \<Rightarrow> number \<Rightarrow> error + number" where
  "js_mul rt a n = bindE (ToNumber rt a) (\<lambda>m. Inr (num_mul m n))"

definition js_lt :: "runtime \<Rightarrow> jsval \<Rightarrow> number \<Rightarrow> error + bool" where
  "js_lt rt a n = bindE (ToNumber rt a) (\<lambda>m. Inr (num_lt m n))"

section \<open>The projection\<close>

text \<open>
  \<open>latLonToXY\<close> of \<open>index.js\<close>.  Its callers pass two entries of a coordinate array, which
  are any values, and the width and height of the offscreen canvas, which are numbers.  The
  object \<open>{ x, y }\<close> it returns is a pair.
\<close>

definition latLonToXY :: "runtime \<Rightarrow> jsval \<Rightarrow> jsval \<Rightarrow> number \<Rightarrow> number \<Rightarrow> error + number \<times> number" where
  "latLonToXY rt lat lon width height =
     bindE (js_add rt lon (Fin 180)) (\<lambda>sum.
     bindE (js_mul rt sum (num_div width (Fin 360))) (\<lambda>x.
     bindE (js_rsub rt (Fin 90) lat) (\<lambda>difference.
     Inr (x, num_mul difference (num_div height (Fin 180))))))"

section \<open>The canvases\<close>

text \<open>
  A canvas with its 2D context.  \<open>path\<close> is the current default path, as the sequence of
  path calls the context has received since the last \<open>beginPath\<close> (a call with a coordinate
  that is not finite is recorded too; the canvas ignores it when it rasterises); \<open>bitmap\<close>
  is what has been rasterised, as the sequence of drawing calls since the bitmap was last
  reset.  Assigning \<open>width\<close> or \<open>height\<close> resets the bitmap and the context state.  A
  canvas size is a natural number below \<open>2 ^ 32\<close>, so it is a Number exactly.
\<close>

datatype pathop = MoveTo number number | LineTo number number | ClosePath

datatype drawcmd =
    FillRect string nat nat nat nat
  | ClearRect nat nat nat nat
  | Fill string "pathop list"
  | Stroke string nat "pathop list"
  | FillText string string string string number number
  | DrawImage "drawcmd list"

record canvas =
  width :: nat
  height :: nat
  fillStyle :: string
  strokeStyle :: string
  lineWidth :: nat
  font :: string
  textAlign :: string
  transform :: "int list"
  path :: "pathop list"
  bitmap :: "drawcmd list"

definition createCanvas :: "nat \<Rightarrow> nat \<Rightarrow> canvas" where
  "createCanvas w h =
     \<lparr>width = w, height = h, fillStyle = ''#000000'', strokeStyle = ''#000000'',
      lineWidth = 1, font = ''10px sans-serif'', textAlign = ''start'',
      transform = [1, 0, 0, 1, 0, 0], path = [], bitmap = []\<rparr>"

definition setWidth :: "nat \<Rightarrow> canvas \<Rightarrow> canvas" where
  "setWidth w c = createCanvas w (height c)"

definition setHeight :: "nat \<Rightarrow> canvas \<Rightarrow> canvas" where
  "setHeight h c = createCanvas (width c) h"

definition beginPath :: "canvas \<Rightarrow> canvas" where
  "beginPath c = c\<lparr>path := []\<rparr>"

definition moveTo :: "number \<Rightarrow> number \<Rightarrow> canvas \<Rightarrow> canvas" where
  "moveTo x y c = c\<lparr>path := path c @ [MoveTo x y]\<rparr>"

definition lineTo :: "number \<Rightarrow> number \<Rightarrow> canvas \<Rightarrow> canvas" where
  "lineTo x y c = c\<lparr>path := path c @ [LineTo x y]\<rparr>"

definition closePath :: "canvas \<Rightarrow> canvas" where
  "closePath c = c\<lparr>path := path c @ [ClosePath]\<rparr>"

definition fill :: "canvas \<Rightarrow> canvas" where
  "fill c = c\<lparr>bitmap := bitmap c @ [Fill (fillStyle c) (path c)]\<rparr>"

definition stroke :: "canvas \<Rightarrow> canvas" where
  "stroke c = c\<lparr>bitmap := bitmap c @ [Stroke (strokeStyle c) (lineWidth c) (path c)]\<rparr>"

definition fillRect :: "nat \<Rightarrow> nat \<Rightarrow> nat \<Rightarrow> nat \<Rightarrow> canvas \<Rightarrow> canvas" where
  "fillRect x y w h c = c\<lparr>bitmap := bitmap c @ [FillRect (fillStyle c) x y w h]\<rparr>"

definition clearRect :: "nat \<Rightarrow> nat \<Rightarrow> nat \<Rightarrow> nat \<Rightarrow> canvas \<Rightarrow> canvas" where
  "clearRect x y w h c = c\<lparr>bitmap := bitmap c @ [ClearRect x y w h]\<rparr>"

definition fillText :: "string \<Rightarrow> number \<Rightarrow> number \<Rightarrow> canvas \<Rightarrow> canvas" where
  "fillText t x y c =
     c\<lparr>bitmap := bitmap c @ [FillText (fillStyle c) (font c) (textAlign c) t x y]\<rparr>"

definition num_of_nat :: "nat \<Rightarrow> number" where
  "num_of_nat n = Fin (of_nat n)"

section \<open>Statements that may throw\<close>

text \<open>
  A statement either completes or throws; either way it leaves a state behind.
  \<open>valE\<close> evaluates an expression that may throw and passes its value on.
\<close>

datatype 's outcome = Done 's | Thrown error 's

definition valE :: "error + 'a \<Rightarrow> 's \<Rightarrow> ('a \<Rightarrow> 's outcome) \<Rightarrow> 's outcome" where
  "valE m s k = (case m of Inl e \<Rightarrow> Thrown e s | Inr a \<Rightarrow> k a)"

fun forEach_from :: "(json \<Rightarrow> nat \<Rightarrow> 's \<Rightarrow> 's outcome) \<Rightarrow> nat \<Rightarrow> json list \<Rightarrow> 's \<Rightarrow> 's outcome" where
  "forEach_from f i [] s = Done s"
| "forEach_from f i (v # vs) s =
     (case f v i s of
        Done s' \<Rightarrow> forEach_from f (Suc i) vs s'
      | Thrown e s' \<Rightarrow> Thrown e s')"

text \<open>
  \<open>v.forEach(f)\<close>: only an array has the method; on \<open>null\<close> or \<open>undefined\<close> reading it
  throws, on any other value of JSON it is not a function.
\<close>

fun forEach :: "jsval \<Rightarrow> (json \<Rightarrow> nat \<Rightarrow> 's \<Rightarrow> 's outcome) \<Rightarrow> 's \<Rightarrow> 's outcome" where
  "forEach (Some (JArr xs)) f s = forEach_from f 0 xs s"
| "forEach v f s = Thrown TypeError s"

section \<open>The path builder\<close>

text \<open>
  The functions receive \<open>offscreenCtx\<close> as \<open>context\<close> and read the size of
  \<open>offscreenCanvas\<close>; both are the one \<open>canvas\<close> passed along here.

  \<open>tracePoint\<close> is the callback applied to each entry of a ring and of a line (the two
  copies in \<open>drawPolygonPath\<close> and \<open>drawLineStringPath\<close> are the same text); its state is
  the variable \<open>firstPoint\<close> and the canvas.  \<open>tracePoints\<close> is
  \<open>let firstPoint = true; coords.forEach(...)\<close>, which both functions contain, and
  \<open>drawRing\<close> is the callback that \<open>drawPolygonPath\<close> applies to each ring.
\<close>

definition tracePoint :: "runtime \<Rightarrow> json \<Rightarrow> nat \<Rightarrow> bool \<times> canvas \<Rightarrow> (bool \<times> canvas) outcome" where
  "tracePoint rt coord i st =
     (if \<not> truthy (Some coord) then Done st
      else valE (getProp (Some coord) ''length'') st (\<lambda>len.
           valE (js_lt rt len (Fin 2)) st (\<lambda>short.
           if short then Done st
           else valE (getProp (Some coord) ''1'') st (\<lambda>lat.
                valE (getProp (Some coord) ''0'') st (\<lambda>lon.
                valE (latLonToXY rt lat lon (num_of_nat (width (snd st)))
                        (num_of_nat (height (snd st)))) st (\<lambda>(x, y).
                if fst st then Done (False, moveTo x y (snd st))
                else Done (fst st, lineTo x y (snd st))))))))"

definition tracePoints :: "runtime \<Rightarrow> jsval \<Rightarrow> canvas \<Rightarrow> canvas outcome" where
  "tracePoints rt coords ctx =
     (case forEach coords (tracePoint rt) (True, ctx) of
        Done st \<Rightarrow> Done (snd st)
      | Thrown e st \<Rightarrow> Thrown e (snd st))"

definition drawRing :: "runtime \<Rightarrow> json \<Rightarrow> nat \<Rightarrow> canvas \<Rightarrow> canvas outcome" where
  "drawRing rt ring i ctx =
     valE (getProp (Some ring) ''length'') ctx (\<lambda>len.
     valE (js_lt rt len (Fin 3)) ctx (\<lambda>short.
     if short then Done ctx
     else case tracePoints rt (Some ring) ctx of
            Done ctx' \<Rightarrow> Done (closePath ctx')
          | Thrown e ctx' \<Rightarrow> Thrown e ctx'))"

definition drawPolygonPath :: "runtime \<Rightarrow> jsval \<Rightarrow> canvas \<Rightarrow> canvas outcome" where
  "drawPolygonPath rt coordinates ctx = forEach coordinates (drawRing rt) ctx"

definition drawLineStringPath :: "runtime \<Rightarrow> jsval \<Rightarrow> canvas \<Rightarrow> canvas outcome" where
  "drawLineStringPath rt coordinates ctx =
     valE (getProp coordinates ''length'') ctx (\<lambda>len.
     valE (js_lt rt len (Fin 2)) ctx (\<lambda>short.
     if short then Done ctx
     else tracePoints rt coordinates ctx))"

definition drawGeometryPath :: "runtime \<Rightarrow> jsval \<Rightarrow> canvas \<Rightarrow> canvas outcome" where
  "drawGeometryPath rt geometry ctx =
     valE (getProp geometry ''type'') ctx (\<lambda>type.
     valE (getProp geometry ''coordinates'') ctx (\<lambda>coordinates.
     if type = Some (JStr ''Polygon'') then drawPolygonPath rt coordinates ctx
     else if type = Some (JStr ''MultiPolygon'') then
       forEach coordinates (\<lambda>polygon i. drawPolygonPath rt (Some polygon)) ctx
     else if type = Some (JStr ''LineString'') then drawLineStringPath rt coordinates ctx
     else if type = Some (JStr ''MultiLineString'') then
       forEach coordinates (\<lambda>lineString i. drawLineStringPath rt (Some lineString)) ctx
     else Done ctx))"

section \<open>The application state\<close>

datatype logentry =
    Log string
  | Warn string nat error
  | Error string error

text \<open>
  The callbacks the program hands to \<open>setTimeout\<close> and \<open>requestAnimationFrame\<close>:
  \<open>RenderOffscreen\<close> is \<open>() => render2DMapOffscreen()\<close>, \<open>RenderThenDisplay\<close> is
  \<open>() => { render2DMapOffscreen(); display2DMap(); }\<close>, \<open>ToggleSwitch\<close> is the frame
  callback of \<open>toggle2D3D\<close>.

  The state holds the module's variables, the two canvases with their contexts, the
  \<open>style.display\<close> of the 2D canvas and of the renderer's element, the size given to the
  renderer and the aspect of the camera, the toggle button, what was written to the
  console, and the callbacks waiting in \<open>setTimeout\<close> and \<open>requestAnimationFrame\<close>.  The
  3D scene and the two \<open>fetch\<close> handlers, which hand the data to \<open>drawThreeGeo\<close> and
  schedule \<open>RenderOffscreen\<close>, are outside this model.
\<close>

datatype task = RenderOffscreen | RenderThenDisplay | ToggleSwitch

record button =
  disabled :: bool
  textContent :: string

record state =
  is3D :: bool
  landData :: json
  outlineData :: json
  map2DRendered :: bool
  canvas2D :: canvas
  offscreenCanvas :: canvas
  canvas2D_display :: string
  renderer_display :: string
  renderer_size :: "nat \<times> nat"
  camera_aspect :: number
  toggleButton :: button
  console :: "logentry list"
  timeouts :: "task list"
  animationFrames :: "task list"

definition console_log :: "string \<Rightarrow> state \<Rightarrow> state" where
  "console_log m s = s\<lparr>console := console s @ [Log m]\<rparr>"

text \<open>The state once the module body has run in a window of the given size.\<close>

definition initial :: "nat \<Rightarrow> nat \<Rightarrow> state" where
  "initial w h =
     \<lparr>is3D = True, landData = JNull, outlineData = JNull, map2DRendered = False,
      canvas2D = createCanvas w h, offscreenCanvas = createCanvas w h,
      canvas2D_display = ''none'', renderer_display = ''block'',
      renderer_size = (w, h), camera_aspect = num_div (num_of_nat w) (num_of_nat h),
      toggleButton = \<lparr>disabled = False, textContent = ''Switch to 2D Map''\<rparr>,
      console = [], timeouts = [], animationFrames = []\<rparr>"

section \<open>The offscreen render\<close>

text \<open>The callbacks of the two \<open>features.forEach\<close> loops.\<close>

definition drawLandFeature :: "runtime \<Rightarrow> json \<Rightarrow> nat \<Rightarrow> state \<Rightarrow> state outcome" where
  "drawLandFeature rt feature index s =
     valE (getProp (Some feature) ''geometry'') s (\<lambda>geometry.
     if \<not> truthy geometry then Done s
     else case drawGeometryPath rt geometry (beginPath (offscreenCanvas s)) of
            Done ctx \<Rightarrow> Done (s\<lparr>offscreenCanvas := fill ctx\<rparr>)
          | Thrown e ctx \<Rightarrow>
              Done (s\<lparr>offscreenCanvas := ctx,
                      console := console s @ [Warn ''Error drawing land feature'' index e]\<rparr>))"

definition drawLandAreas :: "runtime \<Rightarrow> state \<Rightarrow> state outcome" where
  "drawLandAreas rt s =
     valE (getProp (Some (landData s)) ''features'') s (\<lambda>features.
     if \<not> truthy features then Done s
     else forEach features (drawLandFeature rt)
            (s\<lparr>offscreenCanvas :=
                 (offscreenCanvas s)\<lparr>fillStyle := ''#90EE90'', strokeStyle := ''transparent''\<rparr>\<rparr>))"

definition drawCountryFeature :: "runtime \<Rightarrow> json \<Rightarrow> nat \<Rightarrow> state \<Rightarrow> state outcome" where
  "drawCountryFeature rt feature index s =
     valE (getProp (Some feature) ''geometry'') s (\<lambda>geometry.
     if \<not> truthy geometry then Done s
     else case drawGeometryPath rt geometry (beginPath (offscreenCanvas s)) of
            Done ctx \<Rightarrow> Done (s\<lparr>offscreenCanvas := stroke ctx\<rparr>)
          | Thrown e ctx \<Rightarrow>
              Done (s\<lparr>offscreenCanvas := ctx,
                      console := console s @ [Warn ''Error drawing country border'' index e]\<rparr>))"

definition drawCountryBorders :: "runtime \<Rightarrow> state \<Rightarrow> state outcome" where
  "drawCountryBorders rt s =
     valE (getProp (Some (outlineData s)) ''features'') s (\<lambda>features.
     if \<not> truthy features then Done s
     else forEach features (drawCountryFeature rt)
            (s\<lparr>offscreenCanvas :=
                 (offscreenCanvas s)\<lparr>strokeStyle := ''#000000'', fillStyle := ''transparent'',
                                     lineWidth := 1\<rparr>\<rparr>))"

definition render2DMapOffscreen :: "runtime \<Rightarrow> state \<Rightarrow> state outcome" where
  "render2DMapOffscreen rt s =
     (if \<not> truthy (Some (landData s)) \<or> \<not> truthy (Some (outlineData s)) \<or> map2DRendered s
      then Done s
      else
        let s1 = console_log ''Pre-rendering 2D map offscreen...'' s;
            c1 = (offscreenCanvas s1)\<lparr>fillStyle := ''#4A90E2''\<rparr>;
            s2 = s1\<lparr>offscreenCanvas := fillRect 0 0 (width c1) (height c1) c1\<rparr>
        in case drawLandAreas rt s2 of
             Thrown e s3 \<Rightarrow> Thrown e s3
           | Done s3 \<Rightarrow>
               (case drawCountryBorders rt s3 of
                  Thrown e s4 \<Rightarrow> Thrown e s4
                | Done s4 \<Rightarrow>
                    Done (console_log ''2D map pre-rendering completed''
                            (s4\<lparr>map2DRendered := True\<rparr>))))"

section \<open>Display, toggle and resize\<close>

text \<open>
  \<open>drawImage\<close> throws an InvalidStateError when the source canvas has a width or a height
  of zero.
\<close>

definition drawImage :: "canvas \<Rightarrow> canvas \<Rightarrow> error + canvas" where
  "drawImage src c =
     (if width src = 0 \<or> height src = 0 then Inl InvalidStateError
      else Inr (c\<lparr>bitmap := bitmap c @ [DrawImage (bitmap src)]\<rparr>))"

definition display2DMap :: "state \<Rightarrow> state outcome" where
  "display2DMap s =
     (let c = canvas2D s;
          s1 = s\<lparr>canvas2D := clearRect 0 0 (width c) (height c) c\<rparr>
      in valE (drawImage (offscreenCanvas s1) (canvas2D s1)) s1 (\<lambda>c'.
         Done (console_log ''2D map displayed'' (s1\<lparr>canvas2D := c'\<rparr>))))"

definition cleanupCanvas2D :: "state \<Rightarrow> state" where
  "cleanupCanvas2D s =
     (let c = canvas2D s
      in s\<lparr>canvas2D := (clearRect 0 0 (width c) (height c) c)\<lparr>transform := [1, 0, 0, 1, 0, 0]\<rparr>\<rparr>)"

text \<open>
  \<open>toggle2D3D\<close> is the click handler; \<open>toggleSwitch\<close> is the callback it passes to
  \<open>requestAnimationFrame\<close>, whose \<open>try\<close> block is \<open>switchWork\<close>.
\<close>

definition switchWork :: "state \<Rightarrow> state outcome" where
  "switchWork s0 =
     (let s = s0\<lparr>is3D := \<not> is3D s0\<rparr>;
          reenable = (\<lambda>t. t\<lparr>toggleButton :=
             \<lparr>disabled = False,
              textContent = (if is3D t then ''Switch to 2D Map'' else ''Switch to 3D Globe'')\<rparr>\<rparr>)
      in if is3D s then
           Done (reenable ((cleanupCanvas2D (console_log ''Switching to 3D mode...'' s))
                   \<lparr>renderer_display := ''block'', canvas2D_display := ''none''\<rparr>))
         else
           let s1 = (console_log ''Switching to 2D mode...'' s)
                      \<lparr>renderer_display := ''none'', canvas2D_display := ''block''\<rparr>
           in if map2DRendered s1 then
                (case display2DMap s1 of
                   Done s2 \<Rightarrow> Done (reenable s2)
                 | Thrown e s2 \<Rightarrow> Thrown e s2)
              else
                let c = canvas2D s1;
                    c1 = fillRect 0 0 (width c) (height c) (c\<lparr>fillStyle := ''#4A90E2''\<rparr>);
                    c2 = c1\<lparr>fillStyle := ''white'', font := ''24px Arial'', textAlign := ''center''\<rparr>;
                    c3 = fillText ''2D Map Loading...''
                           (num_div (num_of_nat (width c2)) (Fin 2))
                           (num_div (num_of_nat (height c2)) (Fin 2)) c2
                in Done (reenable (s1\<lparr>canvas2D := c3,
                                        timeouts := timeouts s1 @ [RenderThenDisplay]\<rparr>)))"

definition toggleSwitch :: "state \<Rightarrow> state" where
  "toggleSwitch s =
     (case switchWork s of
        Done s' \<Rightarrow> s'
      | Thrown e s' \<Rightarrow>
          s'\<lparr>console := console s' @ [Error ''Error during toggle:'' e],
             toggleButton := \<lparr>disabled = False, textContent = ''Toggle Failed - Try Again''\<rparr>\<rparr>)"

definition toggle2D3D :: "state \<Rightarrow> state" where
  "toggle2D3D s =
     (if disabled (toggleButton s) then s
      else s\<lparr>toggleButton := \<lparr>disabled = True, textContent = ''Switching...''\<rparr>,
             animationFrames := animationFrames s @ [ToggleSwitch]\<rparr>)"

text \<open>\<open>handleWindowResize\<close>, with \<open>window.innerWidth\<close> and \<open>window.innerHeight\<close> as arguments.\<close>

definition handleWindowResize :: "nat \<Rightarrow> nat \<Rightarrow> state \<Rightarrow> state" where
  "handleWindowResize newWidth newHeight s =
     (let s1 = s\<lparr>camera_aspect := num_div (num_of_nat newWidth) (num_of_nat newHeight),
                 renderer_size := (newWidth, newHeight),
                 canvas2D := setHeight newHeight (setWidth newWidth (canvas2D s)),
                 offscreenCanvas := setHeight newHeight (setWidth newWidth (offscreenCanvas s)),
                 map2DRendered := False\<rparr>
      in if \<not> is3D s1 \<and> truthy (Some (landData s1)) \<and> truthy (Some (outlineData s1))
         then s1\<lparr>timeouts := timeouts s1 @ [RenderThenDisplay]\<rparr>
         else s1)"

text \<open>Running a callback; what it throws is not caught by the program.\<close>

fun runTask :: "runtime \<Rightarrow> task \<Rightarrow> state \<Rightarrow> state outcome" where
  "runTask rt RenderOffscreen s = render2DMapOffscreen rt s"
| "runTask rt RenderThenDisplay s =
     (case render2DMapOffscreen rt s of
        Done s' \<Rightarrow> display2DMap s'
      | Thrown e s' \<Rightarrow> Thrown e s')"
| "runTask rt ToggleSwitch s = Done (toggleSwitch s)"

text \<open>
  The events that reach the program apart from the scheduled callbacks: a click on the
  button, an animation frame (which runs the oldest pending frame callback) and a resize of
  the window.
\<close>

datatype event = Click | AnimationFrame | Resize nat nat

fun handle :: "event \<Rightarrow> state \<Rightarrow> state" where
  "handle Click s = toggle2D3D s"
| "handle AnimationFrame s =
     (case animationFrames s of
        ToggleSwitch # rest \<Rightarrow> toggleSwitch (s\<lparr>animationFrames := rest\<rparr>)
      | _ \<Rightarrow> s)"
| "handle (Resize w h) s = handleWindowResize w h s"

section \<open>Vocabulary of the properties\<close>

text \<open>
  An entry of a ring or line is \<open>malformed\<close> when it is \<open>null\<close> or an array of fewer than
  two components, and \<open>wellformed\<close> when it is an array that starts with two numbers.
  \<open>projected\<close> is the point that the entry callback computes for an entry, and \<open>subpath\<close>
  the calls that tracing a list of points makes: a \<open>moveTo\<close> when \<open>firstPoint\<close> is still
  set, a \<open>lineTo\<close> otherwise.
\<close>

fun malformed :: "json \<Rightarrow> bool" where
  "malformed JNull = True"
| "malformed (JArr xs) = (length xs < 2)"
| "malformed v = False"

fun wellformed :: "json \<Rightarrow> bool" where
  "wellformed (JArr (JNum lon # JNum lat # rest)) = True"
| "wellformed v = False"

definition projected :: "runtime \<Rightarrow> canvas \<Rightarrow> json \<Rightarrow> number \<times> number" where
  "projected rt ctx p =
     projr (bindE (getProp (Some p) ''1'') (\<lambda>lat.
            bindE (getProp (Some p) ''0'') (\<lambda>lon.
            latLonToXY rt lat lon (num_of_nat (width ctx)) (num_of_nat (height ctx)))))"

fun subpath :: "bool \<Rightarrow> (number \<times> number) list \<Rightarrow> pathop list" where
  "subpath firstPoint [] = []"
| "subpath firstPoint (p # ps) =
     (if firstPoint then case_prod MoveTo p else case_prod LineTo p) # subpath False ps"

text \<open>
  For the proofs: \<open>appends w h op\<close> says that on every canvas of size \<open>w\<close> by \<open>h\<close> the
  statement \<open>op\<close> adds the same calls to the path, changes nothing else and ends the same
  way.
\<close>

definition finish :: "error option \<Rightarrow> 's \<Rightarrow> 's outcome" where
  "finish eo s = (case eo of None \<Rightarrow> Done s | Some e \<Rightarrow> Thrown e s)"

definition appends :: "nat \<Rightarrow> nat \<Rightarrow> (canvas \<Rightarrow> canvas outcome) \<Rightarrow> bool" where
  "appends w h op =
     (\<exists>eo ops. \<forall>ctx. width ctx = w \<longrightarrow> height ctx = h \<longrightarrow>
        op ctx = finish eo (ctx\<lparr>path := path ctx @ ops\<rparr>))"

text \<open>
  What a drawing pass does with one feature on a canvas of size \<open>w\<close> by \<open>h\<close>:
  \<open>featurePath\<close> is \<open>None\<close> when the feature has no truthy geometry, the path that
  \<open>drawGeometryPath\<close> builds from an empty path when it completes, and the error when it
  throws.  \<open>drawnPaths\<close> collects the paths of a feature list, \<open>warnings\<close> the warnings
  logged for it.  A dataset is valid when its \<open>features\<close> are falsy or an array without
  \<open>null\<close> entries.
\<close>

definition featurePath :: "runtime \<Rightarrow> nat \<Rightarrow> nat \<Rightarrow> json \<Rightarrow> (error + pathop list) option" where
  "featurePath rt w h feature =
     (case getProp (Some feature) ''geometry'' of
        Inl e \<Rightarrow> None
      | Inr geometry \<Rightarrow>
          if \<not> truthy geometry then None
          else (case drawGeometryPath rt geometry (createCanvas w h) of
                  Done c \<Rightarrow> Some (Inr (path c))
                | Thrown e c \<Rightarrow> Some (Inl e)))"

definition drawnPaths :: "runtime \<Rightarrow> nat \<Rightarrow> nat \<Rightarrow> json list \<Rightarrow> pathop list list" where
  "drawnPaths rt w h fs =
     concat (map (\<lambda>f. case featurePath rt w h f of Some (Inr ops) \<Rightarrow> [ops] | _ \<Rightarrow> []) fs)"

definition warnings :: "string \<Rightarrow> runtime \<Rightarrow> nat \<Rightarrow> nat \<Rightarrow> nat \<Rightarrow> json list \<Rightarrow> logentry list" where
  "warnings msg rt w h i fs =
     concat (map (\<lambda>(k, f). case featurePath rt w h f of Some (Inl e) \<Rightarrow> [Warn msg k e] | _ \<Rightarrow> [])
               (List.enumerate i fs))"

definition valid_dataset :: "json \<Rightarrow> bool" where
  "valid_dataset d =
     (case getProp (Some d) ''features'' of
        Inl e \<Rightarrow> False
      | Inr features \<Rightarrow>
          if truthy features
          then (case features of Some (JArr fs) \<Rightarrow> JNull \<notin> set fs | _ \<Rightarrow> False)
          else True)"

fun is_blit :: "drawcmd \<Rightarrow> bool" where
  "is_blit (DrawImage b) = True"
| "is_blit c = False"

subsection \<open>Example data\<close>

text \<open>
  A runtime for evaluating the program on data in which every operand of an arithmetic
  operation or comparison is a number: there its three conversions are never called.
\<close>

definition any_runtime :: runtime where
  "any_runtime =
     \<lparr>StringToNumber = (\<lambda>s. NaN), NumberToString = (\<lambda>n. []),
      ObjectToPrimitive = (\<lambda>v. Inl TypeError)\<rparr>"

definition triangle :: json where
  "triangle =
     JObj [(''type'', JStr ''Polygon''),
           (''coordinates'',
            JArr [JArr [JArr [JNum (Fin 0), JNum (Fin 0)],
                        JArr [JNum (Fin 10), JNum (Fin 0)],
                        JArr [JNum (Fin 10), JNum (Fin 10)]]])]"

definition null_entry_land :: state where
  "null_entry_land =
     (initial 360 180)\<lparr>landData :=
        JObj [(''features'', JArr [JNull, JObj [(''geometry'', triangle)]])]\<rparr>"

definition loaded :: state where
  "loaded =
     (initial 360 180)\<lparr>
        landData := JObj [(''features'', JArr [JObj [(''geometry'', triangle)]])],
        outlineData := JObj [(''features'', JArr [JObj [(''geometry'', JNull)]])]\<rparr>"

definition null_entry_loaded :: state where
  "null_entry_loaded =
     (initial 360 180)\<lparr>landData := JObj [(''features'', JArr [JNull])],
                         outlineData := JObj []\<rparr>"

definition broken_polygon :: json where
  "broken_polygon = JObj [(''type'', JStr ''Polygon'')]"

definition mixed :: state where
  "mixed =
     (initial 360 180)\<lparr>
        landData := JObj [(''features'',
          JArr [JObj [(''geometry'', triangle)], JObj [(''geometry'', broken_polygon)],
                JObj [(''geometry'', triangle)]])],
        outlineData := JObj [(''features'',
          JArr [JObj [(''geometry'', broken_polygon)], JObj [(''geometry'', triangle)]])]\<rparr>"

definition cached_zero_size :: state where
  "cached_zero_size = (initial 0 0)\<lparr>map2DRendered := True\<rparr>"

section \<open>Rounding\<close>

lemma quotient_of_abs_pos:
  assumes "q \<noteq> 0" "quotient_of \<bar>q\<bar> = (a, b)"
  shows "0 < a" "0 < b" "\<bar>q\<bar> = of_int a / of_int b"
proof -
  show b: "0 < b" using assms(2) quotient_of_denom_pos by blast
  show q: "\<bar>q\<bar> = of_int a / of_int b" using assms(2) quotient_of_div by blast
  have "0 < \<bar>q\<bar>" using assms(1) by simp
  then show "0 < a" using b q
    by (simp add: zero_less_divide_iff)
qed

lemma bitlen_powi:
  assumes "0 < a"
  shows "(2::rat) powi (bitlen a - 1) \<le> of_int a" "(of_int a :: rat) < 2 powi (bitlen a)"
proof -
  have n: "0 \<le> bitlen a - 1" using assms by (auto simp: bitlen_alt_def)
  have "(2::int) ^ nat (bitlen a - 1) \<le> a" "a < 2 ^ nat (bitlen a)"
    using bitlen_bounds[OF assms] by auto
  then have "(of_int ((2::int) ^ nat (bitlen a - 1)) :: rat) \<le> of_int a"
     "(of_int a :: rat) < of_int (2 ^ nat (bitlen a))"
    by (simp_all only: of_int_le_iff of_int_less_iff)
  then show "(2::rat) powi (bitlen a - 1) \<le> of_int a" "(of_int a :: rat) < 2 powi (bitlen a)"
    using n by (simp_all add: power_int_def)
qed

lemma ilog2_bounds:
  assumes "q \<noteq> 0"
  shows "2 powi (ilog2 q) \<le> \<bar>q\<bar>" "\<bar>q\<bar> < 2 powi (ilog2 q + 1)"
proof -
  obtain a b where ab: "quotient_of \<bar>q\<bar> = (a, b)" by (cases "quotient_of \<bar>q\<bar>")
  note p = quotient_of_abs_pos[OF assms ab]
  define k where "k = bitlen a - bitlen b"
  have il: "ilog2 q = (if 2 powi k \<le> \<bar>q\<bar> then k else k - 1)"
    by (simp add: ilog2_def ab k_def Let_def)
  have bpos: "(0::rat) < of_int b" using p(2) by simp
  have "of_int a < (2::rat) powi (bitlen a)" using bitlen_powi(2)[OF p(1)] .
  moreover have "(2::rat) powi (bitlen b - 1) \<le> of_int b" using bitlen_powi(1)[OF p(2)] .
  ultimately have "of_int a / of_int b < (2::rat) powi (bitlen a) / 2 powi (bitlen b - 1)"
    using bpos p(1) by (intro frac_less) auto
  also have "\<dots> = 2 powi (bitlen a - (bitlen b - 1))"
    by (subst power_int_diff) auto
  also have "bitlen a - (bitlen b - 1) = k + 1"
    by (simp add: k_def)
  finally have up: "\<bar>q\<bar> < 2 powi (k + 1)" using p(3) by simp
  have "(2::rat) powi (bitlen a - 1) \<le> of_int a" using bitlen_powi(1)[OF p(1)] .
  moreover have "of_int b < (2::rat) powi (bitlen b)" using bitlen_powi(2)[OF p(2)] .
  ultimately have "(2::rat) powi (bitlen a - 1) / 2 powi (bitlen b) < of_int a / of_int b"
    using bpos by (intro frac_less2) auto
  moreover have "(2::rat) powi (bitlen a - 1) / 2 powi (bitlen b) = 2 powi (bitlen a - 1 - bitlen b)"
    by (subst power_int_diff) auto
  moreover have "bitlen a - 1 - bitlen b = k - 1"
    by (simp add: k_def)
  ultimately have lo: "2 powi (k - 1) < \<bar>q\<bar>" using p(3) by simp
  show "2 powi (ilog2 q) \<le> \<bar>q\<bar>" using lo by (simp add: il)
  show "\<bar>q\<bar> < 2 powi (ilog2 q + 1)" using up by (auto simp add: il not_le)
qed

lemma ilog2_unique:
  assumes "2 powi e \<le> \<bar>q\<bar>" "\<bar>q\<bar> < 2 powi (e + 1)"
  shows "ilog2 q = e"
proof -
  have "(0::rat) < 2 powi e" by simp
  then have "0 < \<bar>q\<bar>" using assms(1) by (rule less_le_trans)
  then have q: "q \<noteq> 0" by simp
  note b = ilog2_bounds[OF q]
  have "(2::rat) powi e < 2 powi (ilog2 q + 1)" using assms(1) b(2) by simp
  then have 1: "e < ilog2 q + 1"
    using power_int_increasing[of "ilog2 q + 1" e "2::rat"] by fastforce
  have "(2::rat) powi (ilog2 q) < 2 powi (e + 1)" using assms(2) b(1) by simp
  then have 2: "ilog2 q < e + 1"
    using power_int_increasing[of "e + 1" "ilog2 q" "2::rat"] by fastforce
  show ?thesis using 1 2 by simp
qed

lemma round_half_even_of_int [simp]: "round_half_even (of_int n) = n"
  by (simp add: round_half_even_def)

lemma fl_exact:
  assumes "2 powi e \<le> \<bar>q\<bar>" "\<bar>q\<bar> < 2 powi (e + 1)" "- 1022 \<le> e" "e < 1024"
    "\<bar>q\<bar> / 2 powi (e - 52) = of_int m"
  shows "fl q = Fin q"
proof -
  have u: "ulp q = 2 powi (e - 52)"
    using assms(3) by (simp add: ulp_def ilog2_unique[OF assms(1,2)] max_def)
  have r: "round_magnitude q = \<bar>q\<bar>"
    by (simp add: round_magnitude_def u assms(5)) (simp flip: assms(5))
  have "(2::rat) powi (e + 1) \<le> 2 powi 1024"
    using assms(4) by (intro power_int_increasing) auto
  then have "\<bar>q\<bar> < 2 ^ 1024" using assms(2) by simp
  then show ?thesis
    by (simp add: fl_def Let_def r flip: mult_sgn_abs) (simp add: mult.commute abs_sgn)
qed

lemma powi2_less_cancel: "(2::rat) powi a < 2 powi b \<Longrightarrow> a < b"
  using power_int_increasing[of b a "2::rat"] by fastforce

lemma round_half_even_zero [simp]: "round_half_even 0 = 0"
  using round_half_even_of_int[of 0] by simp

lemma round_magnitude_zero [simp]: "round_magnitude 0 = 0"
  by (simp add: round_magnitude_def)

lemma fl_zero [simp]: "fl 0 = Fin 0"
  by (simp add: fl_def Let_def)

lemma fl_of_int:
  assumes "\<bar>n\<bar> < 2 ^ 53"
  shows "fl (of_int n) = Fin (of_int n)"
proof (cases "n = 0")
  case True
  then show ?thesis by simp
next
  case False
  define q :: rat where "q = of_int n"
  define e where "e = ilog2 q"
  have q: "q \<noteq> 0" using False by (simp add: q_def)
  note b = ilog2_bounds[OF q, folded e_def]
  have aq: "\<bar>q\<bar> = of_int \<bar>n\<bar>" by (simp add: q_def)
  have "1 \<le> \<bar>n\<bar>" using False by simp
  then have "(1::rat) \<le> \<bar>q\<bar>" unfolding aq by (simp only: of_int_1_le_iff)
  then have "(2::rat) powi 0 < 2 powi (e + 1)" using b(2) by simp
  then have e0: "0 \<le> e" using powi2_less_cancel by fastforce
  have "\<bar>q\<bar> < 2 ^ 53" unfolding aq using assms
    by (metis of_int_less_iff of_int_numeral of_int_power)
  then have "(2::rat) powi e < 2 powi 53" using b(1) by simp
  then have e53: "e < 53" by (rule powi2_less_cancel)
  have "\<bar>q\<bar> / 2 powi (e - 52) = \<bar>q\<bar> * 2 powi (52 - e)"
    by (simp add: power_int_diff)
  also have "\<dots> = of_int (\<bar>n\<bar> * 2 ^ nat (52 - e))"
    using e53 by (simp add: aq power_int_def)
  finally have "\<bar>q\<bar> / 2 powi (e - 52) = of_int (\<bar>n\<bar> * 2 ^ nat (52 - e))" .
  then have "fl q = Fin q"
    using b e0 e53 by (intro fl_exact[of e q "\<bar>n\<bar> * 2 ^ nat (52 - e)"]) auto
  then show ?thesis by (simp add: q_def)
qed

lemma fl_numeral [simp]: "numeral k < (2::int) ^ 53 \<Longrightarrow> fl (numeral k) = Fin (numeral k)"
  using fl_of_int[of "numeral k"] by simp

lemma fl_one [simp]: "fl 1 = Fin 1"
  using fl_of_int[of 1] by simp

lemma round_half_even_bounds:
  "of_int (round_half_even q) \<le> q + 1 / 2" "q - 1 / 2 \<le> of_int (round_half_even q)"
proof -
  define f where "f = \<lfloor>q\<rfloor>"
  have f: "of_int f \<le> q" "q < of_int f + 1" unfolding f_def by linarith+
  have r: "round_half_even q =
     (if q - of_int f < 1 / 2 then f else if 1 / 2 < q - of_int f then f + 1
      else if even f then f else f + 1)"
    by (simp add: round_half_even_def f_def Let_def)
  show "of_int (round_half_even q) \<le> q + 1 / 2" "q - 1 / 2 \<le> of_int (round_half_even q)"
    using f unfolding r by (auto split: if_splits)
qed

lemma round_half_even_mono:
  assumes "q1 \<le> q2"
  shows "round_half_even q1 \<le> round_half_even q2"
proof (cases "q1 = q2")
  case True
  then show ?thesis by simp
next
  case False
  then have "q1 < q2" using assms by simp
  then have "(of_int (round_half_even q1) :: rat) < of_int (round_half_even q2) + 1"
    using round_half_even_bounds(1)[of q1] round_half_even_bounds(2)[of q2] by linarith
  then have "(of_int (round_half_even q1) :: rat) < of_int (round_half_even q2 + 1)" by simp
  then have "round_half_even q1 < round_half_even q2 + 1" by (simp only: of_int_less_iff)
  then show ?thesis by simp
qed

lemma ilog2_mono:
  assumes "q1 \<noteq> 0" "\<bar>q1\<bar> \<le> \<bar>q2\<bar>"
  shows "ilog2 q1 \<le> ilog2 q2"
proof -
  have q2: "q2 \<noteq> 0" using assms by auto
  have "(2::rat) powi (ilog2 q1) < 2 powi (ilog2 q2 + 1)"
    using ilog2_bounds(1)[OF assms(1)] ilog2_bounds(2)[OF q2] assms(2) by linarith
  then have "ilog2 q1 < ilog2 q2 + 1" by (rule powi2_less_cancel)
  then show ?thesis by simp
qed

lemma ulp_pos [simp]: "0 < ulp q"
  by (simp add: ulp_def)

lemma ulp_nonzero [simp]: "ulp q \<noteq> 0"
  by (simp add: ulp_def)

lemma ulp_nonneg [simp]: "0 \<le> ulp q"
  by (simp add: ulp_def)

lemma round_magnitude_nonneg [simp]: "0 \<le> round_magnitude q"
proof -
  have "0 \<le> \<bar>q\<bar> / ulp q" by (intro divide_nonneg_nonneg) simp_all
  then have "round_half_even 0 \<le> round_half_even (\<bar>q\<bar> / ulp q)"
    by (rule round_half_even_mono)
  then show ?thesis by (simp add: round_magnitude_def)
qed

lemma round_magnitude_le:
  assumes "\<bar>q\<bar> \<le> B" "B / ulp q = of_int n"
  shows "round_magnitude q \<le> B"
proof -
  have "\<bar>q\<bar> / ulp q \<le> B / ulp q" using assms(1) by (intro divide_right_mono) simp_all
  then have "round_half_even (\<bar>q\<bar> / ulp q) \<le> round_half_even (of_int n)"
    unfolding assms(2) by (rule round_half_even_mono)
  then have "(of_int (round_half_even (\<bar>q\<bar> / ulp q)) :: rat) \<le> of_int n" by simp
  then have "round_magnitude q \<le> of_int n * ulp q"
    unfolding round_magnitude_def by (simp add: mult_right_mono)
  also have "of_int n * ulp q = B" by (simp flip: assms(2))
  finally show ?thesis .
qed

lemma round_magnitude_ge:
  assumes "B \<le> \<bar>q\<bar>" "B / ulp q = of_int n"
  shows "B \<le> round_magnitude q"
proof -
  have "B / ulp q \<le> \<bar>q\<bar> / ulp q" using assms(1) by (intro divide_right_mono) simp_all
  then have "round_half_even (of_int n) \<le> round_half_even (\<bar>q\<bar> / ulp q)"
    unfolding assms(2) by (rule round_half_even_mono)
  then have "(of_int n :: rat) \<le> of_int (round_half_even (\<bar>q\<bar> / ulp q))" by simp
  then have "of_int n * ulp q \<le> round_magnitude q"
    unfolding round_magnitude_def by (simp add: mult_right_mono)
  moreover have "of_int n * ulp q = B" by (simp flip: assms(2))
  ultimately show ?thesis by simp
qed

lemma powi2_nonneg_int: "0 \<le> k \<Longrightarrow> (2::rat) powi k = of_int (2 ^ nat k)"
  by (simp add: power_int_def)

lemma round_magnitude_mono:
  assumes "\<bar>q1\<bar> \<le> \<bar>q2\<bar>"
  shows "round_magnitude q1 \<le> round_magnitude q2"
proof (cases "q1 = 0")
  case True
  then show ?thesis by simp
next
  case False
  define c1 where "c1 = max (ilog2 q1) (- 1022)"
  define c2 where "c2 = max (ilog2 q2) (- 1022)"
  have u1: "ulp q1 = 2 powi (c1 - 52)" and u2: "ulp q2 = 2 powi (c2 - 52)"
    by (simp_all add: ulp_def c1_def c2_def)
  have e: "ilog2 q1 \<le> ilog2 q2" using ilog2_mono[OF False assms] .
  then have c: "c1 \<le> c2" by (auto simp: c1_def c2_def)
  show ?thesis
  proof (cases "c1 = c2")
    case True
    then have u: "ulp q1 = ulp q2" by (simp add: u1 u2)
    have "\<bar>q1\<bar> / ulp q2 \<le> \<bar>q2\<bar> / ulp q2" using assms by (intro divide_right_mono) simp_all
    then have "round_half_even (\<bar>q1\<bar> / ulp q2) \<le> round_half_even (\<bar>q2\<bar> / ulp q2)"
      by (rule round_half_even_mono)
    then show ?thesis
      unfolding round_magnitude_def u by (simp add: mult_right_mono)
  next
    case False
    then have lt: "c1 < c2" using c by simp
    then have c2e: "c2 = ilog2 q2" by (auto simp: c1_def c2_def)
    have q2: "q2 \<noteq> 0" using \<open>q1 \<noteq> 0\<close> assms by auto
    define B :: rat where "B = 2 powi c2"
    have "\<bar>q1\<bar> < 2 powi (ilog2 q1 + 1)" using ilog2_bounds(2)[OF \<open>q1 \<noteq> 0\<close>] .
    also have "\<dots> \<le> 2 powi c2"
      using lt by (intro power_int_increasing) (auto simp: c1_def)
    finally have 1: "\<bar>q1\<bar> \<le> B" by (simp add: B_def)
    have "B / ulp q1 = 2 powi (c2 - (c1 - 52))"
      unfolding B_def u1 by (subst power_int_diff) auto
    also have "\<dots> = of_int (2 ^ nat (c2 - (c1 - 52)))"
      using lt by (intro powi2_nonneg_int) simp
    finally have 2: "B / ulp q1 = of_int (2 ^ nat (c2 - (c1 - 52)))" .
    have 3: "B \<le> \<bar>q2\<bar>" using ilog2_bounds(1)[OF q2] by (simp add: B_def c2e)
    have "B / ulp q2 = 2 powi (c2 - (c2 - 52))"
      unfolding B_def u2 by (subst power_int_diff) auto
    also have "\<dots> = of_int (2 ^ 52)" by simp
    finally have 4: "B / ulp q2 = of_int (2 ^ 52)" .
    show ?thesis
      using round_magnitude_le[OF 1 2] round_magnitude_ge[OF 3 4] by simp
  qed
qed

lemma round_magnitude_pos_nonzero: "0 < round_magnitude q \<Longrightarrow> q \<noteq> 0"
  by (cases "q = 0") auto

lemma fl_cases:
  obtains (inf) "2 ^ 1024 \<le> round_magnitude q" "q \<noteq> 0"
      "fl q = (if 0 < q then PosInf else NegInf)"
  | (fin) "round_magnitude q < 2 ^ 1024" "fl q = Fin (sgn q * round_magnitude q)"
proof (cases "2 ^ 1024 \<le> round_magnitude q")
  case True
  then have "0 < round_magnitude q"
    by (rule less_le_trans[rotated]) simp
  then have "q \<noteq> 0" by (rule round_magnitude_pos_nonzero)
  then show ?thesis using True inf by (simp add: fl_def)
next
  case False
  then show ?thesis using fin by (simp add: fl_def)
qed

lemma fl_mono:
  assumes "q1 \<le> q2"
  shows "num_le (fl q1) (fl q2)"
proof -
  consider "0 \<le> q1" | "q2 \<le> 0" | "q1 < 0" "0 < q2" using assms by linarith
  then show ?thesis
  proof cases
    case 1
    then have "\<bar>q1\<bar> \<le> \<bar>q2\<bar>" using assms by simp
    then have m: "round_magnitude q1 \<le> round_magnitude q2" by (rule round_magnitude_mono)
    show ?thesis
    proof (cases q2 rule: fl_cases)
      case inf
      then have "fl q2 = PosInf" using 1 assms by auto
      then show ?thesis by (cases q1 rule: fl_cases) (auto split: if_splits)
    next
      case fin
      then have "round_magnitude q1 < 2 ^ 1024" using m by simp
      then have "fl q1 = Fin (sgn q1 * round_magnitude q1)" by (simp add: fl_def)
      then show ?thesis using fin m 1 assms
        by (cases "q1 = 0") (auto simp: sgn_if)
    qed
  next
    case 2
    then have "\<bar>q2\<bar> \<le> \<bar>q1\<bar>" using assms by simp
    then have m: "round_magnitude q2 \<le> round_magnitude q1" by (rule round_magnitude_mono)
    show ?thesis
    proof (cases q1 rule: fl_cases)
      case inf
      then have "fl q1 = NegInf" using 2 assms by auto
      then show ?thesis by (cases q2 rule: fl_cases) (auto split: if_splits)
    next
      case fin
      then have "round_magnitude q2 < 2 ^ 1024" using m by simp
      then have "fl q2 = Fin (sgn q2 * round_magnitude q2)" by (simp add: fl_def)
      then show ?thesis using fin m 2 assms
        by (cases "q2 = 0") (auto simp: sgn_if)
    qed
  next
    case 3
    have a: "fl q1 = NegInf \<or> (\<exists>r. fl q1 = Fin r \<and> r \<le> 0)"
      using 3(1) by (cases q1 rule: fl_cases) (auto simp: sgn_if)
    have b: "fl q2 = PosInf \<or> (\<exists>r. fl q2 = Fin r \<and> 0 \<le> r)"
      using 3(2) by (cases q2 rule: fl_cases) (auto simp: sgn_if)
    show ?thesis using a b by auto
  qed
qed


lemma fl_between:
  assumes "0 \<le> q" "q \<le> B" "fl B = Fin B"
  obtains r where "fl q = Fin r" "0 \<le> r" "r \<le> B"
proof -
  have "num_le (fl 0) (fl q)" using assms(1) by (rule fl_mono)
  moreover have "num_le (fl q) (fl B)" using assms(2) by (rule fl_mono)
  ultimately have "num_le (Fin 0) (fl q)" "num_le (fl q) (Fin B)"
    by (simp_all add: assms(3))
  then show ?thesis using that by (cases "fl q") auto
qed

lemma fl_pow1023: "fl (2 ^ 1023) = Fin (2 ^ 1023)"
  by (rule fl_exact[of 1023 _ "2 ^ 52"]) simp_all

lemma scale_finite:
  assumes "0 < w" "w < 2 ^ 1024" "2 \<le> d"
  obtains k where "fl (w / d) = Fin k" "0 \<le> k"
proof -
  have "w / d \<le> w / 2" using assms(1,3) by (intro divide_left_mono) simp_all
  also have "\<dots> \<le> 2 ^ 1023" using assms(2) by simp
  finally have "w / d \<le> 2 ^ 1023" .
  moreover have "0 \<le> w / d" using assms(1,3) by simp
  ultimately show ?thesis using fl_between[OF _ _ fl_pow1023, of "w / d"] that by blast
qed

lemma scaled_mono:
  assumes "0 \<le> p" "p \<le> q" "q \<le> B" "fl B = Fin B" "0 \<le> k"
  shows "num_le (num_mul (fl p) (Fin k)) (num_mul (fl q) (Fin k))"
proof -
  obtain a where a: "fl p = Fin a" "0 \<le> a"
    using fl_between[OF assms(1) _ assms(4), of thesis] assms(2,3) by auto
  obtain b where b: "fl q = Fin b" "0 \<le> b"
    using fl_between[OF _ assms(3,4), of thesis] assms(1,2) by auto
  have "num_le (fl p) (fl q)" using assms(2) by (rule fl_mono)
  then have "a \<le> b" by (simp add: a b)
  then have "a * k \<le> b * k" using assms(5) by (rule mult_right_mono)
  then show ?thesis by (simp add: a b fl_mono)
qed

lemma fl_near_180: "fl (180 + 1 / 2 ^ 60) = Fin 180"
proof -
  define q :: rat where "q = 180 + 1 / 2 ^ 60"
  have "ilog2 q = 7" unfolding q_def by (rule ilog2_unique) simp_all
  then have u: "ulp q = 1 / 2 ^ 45" by (simp add: ulp_def)
  have d: "\<bar>q\<bar> / ulp q = 6333186975989760 + 1 / 32768"
    unfolding u by (simp add: q_def)
  have "\<lfloor>(6333186975989760 + 1 / 32768 :: rat)\<rfloor> = 6333186975989760"
    by (rule floor_unique) simp_all
  then have r: "round_half_even (6333186975989760 + 1 / 32768) = 6333186975989760"
    by (simp add: round_half_even_def)
  have m: "round_magnitude q = 180"
    unfolding round_magnitude_def d r by (simp add: u)
  have "0 < q" by (simp add: q_def)
  then have "fl q = Fin 180" by (simp add: fl_def m)
  then show ?thesis by (simp add: q_def)
qed

lemma fl_near_90: "fl (90 - 1 / 2 ^ 60) = Fin 90"
proof -
  define q :: rat where "q = 90 - 1 / 2 ^ 60"
  have "ilog2 q = 6" unfolding q_def by (rule ilog2_unique) simp_all
  then have u: "ulp q = 1 / 2 ^ 46" by (simp add: ulp_def)
  have d: "\<bar>q\<bar> / ulp q = 6333186975989760 - 1 / 16384"
    unfolding u by (simp add: q_def)
  have "\<lfloor>(6333186975989760 - 1 / 16384 :: rat)\<rfloor> = 6333186975989759"
    by (rule floor_unique) simp_all
  then have r: "round_half_even (6333186975989760 - 1 / 16384) = 6333186975989760"
    by (simp add: round_half_even_def)
  have m: "round_magnitude q = 90"
    unfolding round_magnitude_def d r by (simp add: u)
  have "0 < q" by (simp add: q_def)
  then have "fl q = Fin 90" by (simp add: fl_def m)
  then show ?thesis by (simp add: q_def)
qed

subsection \<open>Rounding at given inputs and the relative error of rounding\<close>

lemma round_half_even_near:
  assumes "\<bar>q - of_int m\<bar> < 1 / 2"
  shows "round_half_even q = m"
proof -
  have "\<bar>(of_int (round_half_even q) :: rat) - of_int m\<bar> < 1"
    using round_half_even_bounds[of q] assms by linarith
  then have "\<bar>(of_int (round_half_even q - m) :: rat)\<bar> < of_int 1" by simp
  then have "\<bar>round_half_even q - m\<bar> < 1"
    by (simp only: of_int_abs[symmetric] of_int_less_iff)
  then show ?thesis by simp
qed

lemma fl_near:
  assumes "2 powi e \<le> \<bar>q\<bar>" "\<bar>q\<bar> < 2 powi (e + 1)" "- 1022 \<le> e"
    and "\<bar>\<bar>q\<bar> / 2 powi (e - 52) - of_int m\<bar> < 1 / 2"
    and "of_int m * 2 powi (e - 52) < (2 ^ 1024 :: rat)"
  shows "fl q = Fin (sgn q * (of_int m * 2 powi (e - 52)))"
proof -
  have u: "ulp q = 2 powi (e - 52)"
    using assms(3) by (simp add: ulp_def ilog2_unique[OF assms(1,2)] max_def)
  have "round_magnitude q = of_int m * 2 powi (e - 52)"
    unfolding round_magnitude_def u round_half_even_near[OF assms(4)] ..
  then show ?thesis using assms(5) by (simp add: fl_def)
qed

lemma fl_393_360: "fl (393 / 360) = Fin (4916429593212791 / 4503599627370496)"
  using fl_near[of 0 "393 / 360" 4916429593212791] by simp

lemma fl_360_k: "fl (360 * (4916429593212791 / 4503599627370496)) =
    Fin (6913729115455487 / 17592186044416)"
  using fl_near[of 8 "360 * (4916429593212791 / 4503599627370496)" 6913729115455487] by simp

lemma fl_49_180: "fl (49 / 180) = Fin (4903919594247873 / 18014398509481984)"
  using fl_near[of "- 2" "49 / 180" 4903919594247873] by simp

lemma fl_180_k: "fl (180 * (4903919594247873 / 18014398509481984)) =
    Fin (6896136929411071 / 140737488355328)"
  using fl_near[of 5 "180 * (4903919594247873 / 18014398509481984)" 6896136929411071] by simp

lemma fl_141480: "fl (360 * 393) = Fin 141480"
  using fl_of_int[of 141480] by simp

lemma round_magnitude_error:
  assumes "2 powi (- 1022) \<le> \<bar>q\<bar>"
  shows "\<bar>round_magnitude q - \<bar>q\<bar>\<bar> \<le> \<bar>q\<bar> / 2 ^ 53"
proof -
  have "(0::rat) < 2 powi (- 1022)" by simp
  then have "0 < \<bar>q\<bar>" using assms by (rule less_le_trans)
  then have q: "q \<noteq> 0" by simp
  define e where "e = ilog2 q"
  note b = ilog2_bounds[OF q, folded e_def]
  have "(2::rat) powi (- 1022) < 2 powi (e + 1)" using assms b(2) by simp
  then have e: "- 1022 \<le> e" using powi2_less_cancel by fastforce
  have u: "ulp q = 2 powi (e - 52)" using e by (simp add: ulp_def e_def max_def)
  define m :: rat where "m = of_int (round_half_even (\<bar>q\<bar> / ulp q))"
  have "\<bar>m - \<bar>q\<bar> / ulp q\<bar> \<le> 1 / 2"
    unfolding m_def using round_half_even_bounds[of "\<bar>q\<bar> / ulp q"] by linarith
  then have "\<bar>m - \<bar>q\<bar> / ulp q\<bar> * ulp q \<le> 1 / 2 * ulp q"
    by (intro mult_right_mono) simp_all
  moreover have "\<bar>m - \<bar>q\<bar> / ulp q\<bar> * ulp q = \<bar>m * ulp q - \<bar>q\<bar>\<bar>"
  proof -
    have "\<bar>m - \<bar>q\<bar> / ulp q\<bar> * ulp q = \<bar>(m - \<bar>q\<bar> / ulp q) * ulp q\<bar>"
      by (simp add: abs_mult)
    also have "(m - \<bar>q\<bar> / ulp q) * ulp q = m * ulp q - \<bar>q\<bar>"
      by (simp add: left_diff_distrib)
    finally show ?thesis .
  qed
  ultimately have "\<bar>m * ulp q - \<bar>q\<bar>\<bar> \<le> 1 / 2 * ulp q" by (simp only:)
  then have 1: "\<bar>round_magnitude q - \<bar>q\<bar>\<bar> \<le> ulp q / 2"
    by (simp add: round_magnitude_def m_def)
  have "ulp q / 2 = 2 powi e / 2 ^ 53"
    unfolding u by (simp add: power_int_diff)
  also have "\<dots> \<le> \<bar>q\<bar> / 2 ^ 53" using b(1) by (intro divide_right_mono) simp_all
  finally show ?thesis using 1 by simp
qed

lemma fl_relative_error:
  assumes "q = 0 \<or> 2 powi (- 1022) \<le> \<bar>q\<bar>" "\<bar>q\<bar> < 2 ^ 1023"
  obtains r where "fl q = Fin r" "\<bar>r - q\<bar> \<le> \<bar>q\<bar> / 2 ^ 53"
proof (cases "q = 0")
  case True
  then show ?thesis using that[of 0] by simp
next
  case False
  then have n: "2 powi (- 1022) \<le> \<bar>q\<bar>" using assms(1) by simp
  note err = round_magnitude_error[OF n]
  have "round_magnitude q \<le> \<bar>q\<bar> + \<bar>q\<bar> / 2 ^ 53" using err by linarith
  also have "\<dots> \<le> \<bar>q\<bar> + \<bar>q\<bar>" by (intro add_left_mono) (simp add: field_simps)
  also have "\<dots> < 2 ^ 1024" using assms(2) by simp
  finally have fin: "fl q = Fin (sgn q * round_magnitude q)" by (simp add: fl_def)
  have "sgn q * round_magnitude q - q = sgn q * (round_magnitude q - \<bar>q\<bar>)"
    by (simp add: right_diff_distrib mult_sgn_abs)
  then have "\<bar>sgn q * round_magnitude q - q\<bar> = \<bar>round_magnitude q - \<bar>q\<bar>\<bar>"
    using False by (simp add: abs_mult abs_sgn_eq)
  then show ?thesis using that[OF fin] err by simp
qed


lemma scaled_error:
  assumes s: "s = 0 \<or> 2 powi (- 500) \<le> \<bar>s\<bar>" "\<bar>s\<bar> \<le> 2 ^ 500"
    and c: "2 powi (- 510) \<le> c" "c \<le> 2 ^ 500"
  obtains x where "num_mul (fl s) (fl c) = Fin x" "\<bar>x - s * c\<bar> \<le> \<bar>s * c\<bar> / 2 ^ 51"
proof -
  define u :: rat where "u = 1 / 2 ^ 53"
  have u: "0 < u" "u \<le> 1 / 2" by (simp_all add: u_def)
  have cpos: "0 < c" using c(1) by (rule less_le_trans[rotated]) simp
  have "(2::rat) powi (- 1022) \<le> 2 powi (- 500)" "(2::rat) powi (- 1022) \<le> 2 powi (- 510)"
    by (intro power_int_increasing; simp)+
  then have ns: "s = 0 \<or> 2 powi (- 1022) \<le> \<bar>s\<bar>" and nc: "c = 0 \<or> 2 powi (- 1022) \<le> \<bar>c\<bar>"
    using s(1) c(1) cpos by auto
  have "(2::rat) ^ 500 < 2 ^ 1023" by simp
  then have bs: "\<bar>s\<bar> < 2 ^ 1023" and bc: "\<bar>c\<bar> < 2 ^ 1023" using s(2) c(2) cpos by auto
  obtain a where a: "fl s = Fin a" "\<bar>a - s\<bar> \<le> \<bar>s\<bar> * u"
    using fl_relative_error[OF ns bs] by (auto simp: u_def)
  obtain k where k: "fl c = Fin k" "\<bar>k - c\<bar> \<le> c * u"
    using fl_relative_error[OF nc bc] cpos by (auto simp: u_def)
  have "\<bar>a\<bar> \<le> \<bar>s\<bar> + \<bar>s\<bar> * u" "\<bar>s\<bar> - \<bar>s\<bar> * u \<le> \<bar>a\<bar>"
    using a(2) by linarith+
  then have a_up: "\<bar>a\<bar> \<le> \<bar>s\<bar> * (1 + u)" and a_lo: "\<bar>s\<bar> * (1 - u) \<le> \<bar>a\<bar>"
    by (simp_all add: algebra_simps)
  have "\<bar>k\<bar> \<le> c + c * u" "c - c * u \<le> \<bar>k\<bar>"
    using k(2) cpos by linarith+
  then have k_up: "\<bar>k\<bar> \<le> c * (1 + u)" and k_lo: "c * (1 - u) \<le> \<bar>k\<bar>"
    by (simp_all add: algebra_simps)
  show ?thesis
  proof (cases "s = 0")
    case True
    then have "a = 0" using a(2) by simp
    then show ?thesis using that[of 0] True by (simp add: a k)
  next
    case False
    then have s_lo: "2 powi (- 500) \<le> \<bar>s\<bar>" using s(1) by simp
    have "\<bar>s\<bar> * (1 / 2) \<le> \<bar>s\<bar> * (1 - u)" using u(2) by (intro mult_left_mono) simp_all
    then have a_half: "\<bar>s\<bar> / 2 \<le> \<bar>a\<bar>" using a_lo by simp
    have "c * (1 / 2) \<le> c * (1 - u)" using u(2) cpos by (intro mult_left_mono) simp_all
    then have k_half: "c / 2 \<le> \<bar>k\<bar>" using k_lo by simp
    have "2 powi (- 500) / 2 * (2 powi (- 510) / 2) \<le> \<bar>s\<bar> / 2 * (c / 2)"
      using s_lo c(1) by (intro mult_mono) simp_all
    also have "\<dots> \<le> \<bar>a\<bar> * \<bar>k\<bar>"
      using a_half k_half cpos by (intro mult_mono) simp_all
    finally have "2 powi (- 500) / 2 * (2 powi (- 510) / 2) \<le> \<bar>a * k\<bar>" by (simp add: abs_mult)
    moreover have "(2::rat) powi (- 1022) \<le> 2 powi (- 500) / 2 * (2 powi (- 510) / 2)"
      by (simp add: power_int_minus field_simps)
    ultimately have lo: "a * k = 0 \<or> 2 powi (- 1022) \<le> \<bar>a * k\<bar>" by simp
    define B :: rat where "B = 2 ^ 500"
    have B: "0 \<le> B" "\<bar>s\<bar> \<le> B" "c \<le> B" using s(2) c(2) by (simp_all add: B_def)
    have u2: "0 \<le> 1 + u" "1 + u \<le> 2" using u by simp_all
    have "\<bar>s\<bar> * (1 + u) \<le> B * 2" using B(2) u2 B(1) by (intro mult_mono) simp_all
    then have aB: "\<bar>a\<bar> \<le> B * 2" using a_up by (rule order_trans[rotated])
    have "c * (1 + u) \<le> B * 2" using B(3) u2 B(1) by (intro mult_mono) simp_all
    then have kB: "\<bar>k\<bar> \<le> B * 2" using k_up by (rule order_trans[rotated])
    have "\<bar>a\<bar> * \<bar>k\<bar> \<le> (B * 2) * (B * 2)"
      using aB kB B(1) by (intro mult_mono) simp_all
    also have "\<dots> < (2::rat) ^ 1023" by (simp add: B_def)
    finally have hi: "\<bar>a * k\<bar> < 2 ^ 1023" by (simp add: abs_mult)
    obtain x where x: "fl (a * k) = Fin x" "\<bar>x - a * k\<bar> \<le> \<bar>a * k\<bar> * u"
      using fl_relative_error[OF lo hi] by (auto simp: u_def)
    define P where "P = \<bar>s\<bar> * c"
    have P: "0 \<le> P" using cpos by (simp add: P_def)
    have ak: "\<bar>a * k\<bar> \<le> P * ((1 + u) * (1 + u))"
    proof -
      have "\<bar>a\<bar> * \<bar>k\<bar> \<le> (\<bar>s\<bar> * (1 + u)) * (c * (1 + u))"
        using a_up k_up u cpos by (intro mult_mono) simp_all
      then show ?thesis by (simp add: abs_mult P_def mult_ac)
    qed
    have t1: "\<bar>x - a * k\<bar> \<le> P * ((1 + u) * (1 + u)) * u"
    proof -
      have "\<bar>a * k\<bar> * u \<le> P * ((1 + u) * (1 + u)) * u"
        using ak u(1) by (intro mult_right_mono) simp_all
      then show ?thesis using x(2) by simp
    qed
    have t2: "\<bar>a * (k - c)\<bar> \<le> P * (1 + u) * u"
    proof -
      have "\<bar>a\<bar> * \<bar>k - c\<bar> \<le> (\<bar>s\<bar> * (1 + u)) * (c * u)"
        using a_up k(2) u cpos by (intro mult_mono) simp_all
      then show ?thesis by (simp add: abs_mult P_def mult_ac)
    qed
    have t3: "\<bar>c * (a - s)\<bar> \<le> P * u"
    proof -
      have "c * \<bar>a - s\<bar> \<le> c * (\<bar>s\<bar> * u)"
        using a(2) cpos by (intro mult_left_mono) simp_all
      then show ?thesis using cpos by (simp add: abs_mult P_def mult_ac)
    qed
    have "x - s * c = (x - a * k) + a * (k - c) + c * (a - s)" by (simp add: algebra_simps)
    then have "\<bar>x - s * c\<bar> \<le> \<bar>x - a * k\<bar> + \<bar>a * (k - c)\<bar> + \<bar>c * (a - s)\<bar>"
      by linarith
    also have "\<dots> \<le> P * ((1 + u) * (1 + u)) * u + P * (1 + u) * u + P * u"
      using t1 t2 t3 by (intro add_mono)
    also have "\<dots> = P * (((1 + u) * (1 + u) + (1 + u) + 1) * u)" by (simp add: algebra_simps)
    also have "\<dots> \<le> P * (1 / 2 ^ 51)"
      using P by (intro mult_left_mono) (simp_all add: u_def)
    finally have "\<bar>x - s * c\<bar> \<le> \<bar>s * c\<bar> / 2 ^ 51"
      using cpos by (simp add: P_def abs_mult)
    then show ?thesis using that[of x] by (simp add: a k x)
  qed
qed


lemma scale_bounds:
  fixes cw d :: rat
  assumes "2 powi (- 500) \<le> cw" "cw \<le> 2 ^ 500" "d = 360 \<or> d = 180"
  shows "2 powi (- 510) \<le> cw / d" "cw / d \<le> 2 ^ 500"
proof -
  have cw: "0 < cw" using assms(1) by (rule less_le_trans[rotated]) simp
  have d: "1 \<le> d" "d \<le> 2 ^ 10" using assms(3) by auto
  have "(2::rat) powi (- 510) = 2 powi (- 500) / 2 ^ 10"
    by (simp add: power_int_minus field_simps)
  also have "\<dots> \<le> cw / 2 ^ 10" using assms(1) by (intro divide_right_mono) simp_all
  also have "\<dots> \<le> cw / d" using cw d by (intro divide_left_mono) simp_all
  finally show "2 powi (- 510) \<le> cw / d" .
  have "cw / d \<le> cw / 1" using cw d by (intro divide_left_mono) simp_all
  then show "cw / d \<le> 2 ^ 500" using assms(2) by simp
qed

section \<open>Properties of the projection\<close>

lemma latLonToXY_numbers:
  "latLonToXY rt (Some (JNum lat)) (Some (JNum lon)) w h =
     Inr (num_mul (num_add lon (Fin 180)) (num_div w (Fin 360)),
          num_mul (num_sub (Fin 90) lat) (num_div h (Fin 180)))"
  by (simp add: latLonToXY_def js_add_def js_mul_def js_rsub_def ToNumber_def bindE_def)

text \<open>
  Claim C1, amended.  For all numbers \<open>lat\<close>, \<open>lon\<close>, \<open>w\<close> and \<open>h\<close>, in range or not, the
  projection returns, without throwing, \<open>x = (lon + 180) * (w / 360)\<close> and
  \<open>y = (90 - lat) * (h / 180)\<close> for width \<open>w\<close> and height \<open>h\<close>, each operation being the
  rounded Number operation of JavaScript.  The result is the exact linear map
  \<open>(lon + 180) * w / 360\<close>, \<open>(90 - lat) * h / 180\<close> only up to rounding: for finite inputs
  whose sums \<open>lon + 180\<close> and \<open>90 - lat\<close> are zero or of magnitude between \<open>2 powi (- 500)\<close>
  and \<open>2 ^ 500\<close>, on a canvas whose width and height lie between \<open>2 powi (- 500)\<close> and
  \<open>2 ^ 500\<close>, each coordinate is finite and differs from the exact value by at most the
  fraction \<open>1 / 2 ^ 51\<close> of that value.  Latitude 0, longitude 0 on a 360 by 180 canvas is
  projected to \<open>(180, 90)\<close> exactly.
\<close>

theorem latLonToXY_linear:
  "latLonToXY rt (Some (JNum lat)) (Some (JNum lon)) w h =
     Inr (num_mul (num_add lon (Fin 180)) (num_div w (Fin 360)),
          num_mul (num_sub (Fin 90) lat) (num_div h (Fin 180)))
   \<and> ((lo + 180 = 0 \<or> 2 powi (- 500) \<le> \<bar>lo + 180\<bar>) \<longrightarrow> \<bar>lo + 180\<bar> \<le> 2 ^ 500 \<longrightarrow>
       2 powi (- 500) \<le> cw \<longrightarrow> cw \<le> 2 ^ 500 \<longrightarrow>
       (\<exists>x y. latLonToXY rt (Some (JNum (Fin la))) (Some (JNum (Fin lo))) (Fin cw) (Fin ch) =
                Inr (Fin x, y)
          \<and> \<bar>x - (lo + 180) * cw / 360\<bar> \<le> \<bar>(lo + 180) * cw / 360\<bar> / 2 ^ 51))
   \<and> ((90 - la = 0 \<or> 2 powi (- 500) \<le> \<bar>90 - la\<bar>) \<longrightarrow> \<bar>90 - la\<bar> \<le> 2 ^ 500 \<longrightarrow>
       2 powi (- 500) \<le> ch \<longrightarrow> ch \<le> 2 ^ 500 \<longrightarrow>
       (\<exists>x y. latLonToXY rt (Some (JNum (Fin la))) (Some (JNum (Fin lo))) (Fin cw) (Fin ch) =
                Inr (x, Fin y)
          \<and> \<bar>y - (90 - la) * ch / 180\<bar> \<le> \<bar>(90 - la) * ch / 180\<bar> / 2 ^ 51))
   \<and> latLonToXY rt (Some (JNum (Fin 0))) (Some (JNum (Fin 0))) (Fin 360) (Fin 180) =
     Inr (Fin 180, Fin 90)"
proof (intro conjI impI)
  show "latLonToXY rt (Some (JNum lat)) (Some (JNum lon)) w h =
     Inr (num_mul (num_add lon (Fin 180)) (num_div w (Fin 360)),
          num_mul (num_sub (Fin 90) lat) (num_div h (Fin 180)))"
    by (rule latLonToXY_numbers)
next
  assume a: "lo + 180 = 0 \<or> 2 powi (- 500) \<le> \<bar>lo + 180\<bar>" "\<bar>lo + 180\<bar> \<le> 2 ^ 500"
    "2 powi (- 500) \<le> cw" "cw \<le> 2 ^ 500"
  obtain x where x: "num_mul (fl (lo + 180)) (fl (cw / 360)) = Fin x"
    "\<bar>x - (lo + 180) * (cw / 360)\<bar> \<le> \<bar>(lo + 180) * (cw / 360)\<bar> / 2 ^ 51"
    using scaled_error[OF a(1,2) scale_bounds[OF a(3,4), of 360]] by auto
  have "latLonToXY rt (Some (JNum (Fin la))) (Some (JNum (Fin lo))) (Fin cw) (Fin ch) =
      Inr (Fin x, num_mul (num_sub (Fin 90) (Fin la)) (num_div (Fin ch) (Fin 180)))"
    using x(1) by (simp add: latLonToXY_numbers)
  then show "\<exists>x y. latLonToXY rt (Some (JNum (Fin la))) (Some (JNum (Fin lo))) (Fin cw) (Fin ch) =
                Inr (Fin x, y)
          \<and> \<bar>x - (lo + 180) * cw / 360\<bar> \<le> \<bar>(lo + 180) * cw / 360\<bar> / 2 ^ 51"
    using x(2) by auto
next
  assume a: "90 - la = 0 \<or> 2 powi (- 500) \<le> \<bar>90 - la\<bar>" "\<bar>90 - la\<bar> \<le> 2 ^ 500"
    "2 powi (- 500) \<le> ch" "ch \<le> 2 ^ 500"
  obtain y where y: "num_mul (fl (90 - la)) (fl (ch / 180)) = Fin y"
    "\<bar>y - (90 - la) * (ch / 180)\<bar> \<le> \<bar>(90 - la) * (ch / 180)\<bar> / 2 ^ 51"
    using scaled_error[OF a(1,2) scale_bounds[OF a(3,4), of 180]] by auto
  have "latLonToXY rt (Some (JNum (Fin la))) (Some (JNum (Fin lo))) (Fin cw) (Fin ch) =
      Inr (num_mul (num_add (Fin lo) (Fin 180)) (num_div (Fin cw) (Fin 360)), Fin y)"
    using y(1) by (simp add: latLonToXY_numbers num_sub_def)
  then show "\<exists>x y. latLonToXY rt (Some (JNum (Fin la))) (Some (JNum (Fin lo))) (Fin cw) (Fin ch) =
                Inr (x, Fin y)
          \<and> \<bar>y - (90 - la) * ch / 180\<bar> \<le> \<bar>(90 - la) * ch / 180\<bar> / 2 ^ 51"
    using y(2) by auto
next
  show "latLonToXY rt (Some (JNum (Fin 0))) (Some (JNum (Fin 0))) (Fin 360) (Fin 180) =
     Inr (Fin 180, Fin 90)"
    by (simp add: latLonToXY_numbers num_sub_def)
qed

text \<open>
  The projection is not the exact linear map: latitude \<open>- 90\<close>, longitude 180 on a canvas
  of 393 by 49 is projected to \<open>393 - 1 / 2 ^ 44\<close> and \<open>49 - 1 / 2 ^ 47\<close>, because the
  factors \<open>393 / 360\<close> and \<open>49 / 180\<close> are rounded before the multiplication, while the exact
  values are 393 and 49; dividing last, \<open>(lon + 180) * w / 360\<close> in Number arithmetic,
  gives 393 and 49.
\<close>

theorem latLonToXY_not_exact:
  "latLonToXY any_runtime (Some (JNum (Fin (- 90)))) (Some (JNum (Fin 180))) (Fin 393) (Fin 49) =
     Inr (Fin (6913729115455487 / 17592186044416), Fin (6896136929411071 / 140737488355328))
   \<and> (6913729115455487 / 17592186044416 :: rat) \<noteq> (180 + 180) * 393 / 360
   \<and> (6896136929411071 / 140737488355328 :: rat) \<noteq> (90 - (- 90)) * 49 / 180
   \<and> num_div (num_mul (num_add (Fin 180) (Fin 180)) (Fin 393)) (Fin 360) = Fin 393
   \<and> num_div (num_mul (num_sub (Fin 90) (Fin (- 90))) (Fin 49)) (Fin 180) = Fin 49"
  using fl_393_360 fl_360_k fl_49_180 fl_180_k fl_141480 fl_of_int[of 8820]
  by (simp add: latLonToXY_numbers num_sub_def)

theorem latLonToXY_linear_witness:
  "((10 :: rat) + 180 = 0 \<or> 2 powi (- 500) \<le> \<bar>(10 :: rat) + 180\<bar>)
   \<and> \<bar>(10 :: rat) + 180\<bar> \<le> 2 ^ 500 \<and> 2 powi (- 500) \<le> (720 :: rat) \<and> (720 :: rat) \<le> 2 ^ 500
   \<and> (90 - (10 :: rat) = 0 \<or> 2 powi (- 500) \<le> \<bar>90 - (10 :: rat)\<bar>)
   \<and> \<bar>90 - (10 :: rat)\<bar> \<le> 2 ^ 500 \<and> 2 powi (- 500) \<le> (360 :: rat) \<and> (360 :: rat) \<le> 2 ^ 500
   \<and> latLonToXY any_runtime (Some (JNum (Fin 10))) (Some (JNum (Fin 10))) (Fin 720) (Fin 360) =
       Inr (Fin 380, Fin 160)
   \<and> \<bar>380 - ((10 :: rat) + 180) * 720 / 360\<bar> \<le> \<bar>((10 :: rat) + 180) * 720 / 360\<bar> / 2 ^ 51
   \<and> \<bar>160 - (90 - (10 :: rat)) * 360 / 180\<bar> \<le> \<bar>(90 - (10 :: rat)) * 360 / 180\<bar> / 2 ^ 51"
proof -
  have p: "latLonToXY any_runtime (Some (JNum (Fin 10))) (Some (JNum (Fin 10))) (Fin 720) (Fin 360) =
       Inr (Fin 380, Fin 160)"
    by (simp add: latLonToXY_numbers num_sub_def)
  have b: "(2 :: rat) powi (- 500) \<le> 1"
    by (simp add: power_int_minus inverse_le_1_iff)
  have c: "(1 :: rat) \<le> 2 ^ 500" by simp
  have r: "2 powi (- 500) \<le> \<bar>(10 :: rat) + 180\<bar>" "\<bar>(10 :: rat) + 180\<bar> \<le> 2 ^ 500"
    "2 powi (- 500) \<le> (720 :: rat)" "(720 :: rat) \<le> 2 ^ 500"
    "2 powi (- 500) \<le> \<bar>90 - (10 :: rat)\<bar>" "\<bar>90 - (10 :: rat)\<bar> \<le> 2 ^ 500"
    "2 powi (- 500) \<le> (360 :: rat)" "(360 :: rat) \<le> 2 ^ 500"
    using b c by simp_all
  show ?thesis
    using latLonToXY_linear[where rt = any_runtime and lo = 10 and la = 10 and cw = 720
        and ch = 360 and lat = "Fin 10" and lon = "Fin 10" and w = "Fin 720" and h = "Fin 360"]
      p r
    by simp
qed

text \<open>
  Claim C2, amended.  On a canvas of positive finite width and height, for latitudes in
  \<open>[-90, 90]\<close> and longitudes in \<open>[-180, 180]\<close>, the projection is monotonic in the weak
  sense: a larger longitude gives an \<open>x\<close> that is not smaller, and a larger latitude a \<open>y\<close>
  that is not larger.
\<close>

theorem latLonToXY_monotone:
  assumes size: "0 < w" "w < 2 ^ 1024" "0 < h" "h < 2 ^ 1024"
    and range: "- 90 \<le> latA" "latA \<le> 90" "- 90 \<le> latB" "latB \<le> 90"
      "- 180 \<le> lonA" "lonA \<le> 180" "- 180 \<le> lonB" "lonB \<le> 180"
    and pA: "latLonToXY rt (Some (JNum (Fin latA))) (Some (JNum (Fin lonA))) (Fin w) (Fin h) =
      Inr (xA, yA)"
    and pB: "latLonToXY rt (Some (JNum (Fin latB))) (Some (JNum (Fin lonB))) (Fin w) (Fin h) =
      Inr (xB, yB)"
  shows "(lonA < lonB \<longrightarrow> num_le xA xB) \<and> (latA < latB \<longrightarrow> num_le yB yA)"
proof -
  obtain kx where kx: "fl (w / 360) = Fin kx" "0 \<le> kx"
    using scale_finite[OF size(1,2), of 360] by auto
  obtain ky where ky: "fl (h / 180) = Fin ky" "0 \<le> ky"
    using scale_finite[OF size(3,4), of 180] by auto
  have x: "xA = num_mul (fl (lonA + 180)) (Fin kx)" "xB = num_mul (fl (lonB + 180)) (Fin kx)"
    and y: "yA = num_mul (fl (90 - latA)) (Fin ky)" "yB = num_mul (fl (90 - latB)) (Fin ky)"
    using pA pB size(1,3) by (simp_all add: latLonToXY_numbers num_sub_def kx ky)
  have f360: "fl 360 = Fin 360" and f180: "fl 180 = Fin 180" by simp_all
  show ?thesis
  proof (intro conjI impI)
    assume "lonA < lonB"
    then show "num_le xA xB"
      unfolding x using range kx(2)
      by (intro scaled_mono[where B = 360] f360) simp_all
  next
    assume "latA < latB"
    then show "num_le yB yA"
      unfolding y using range ky(2)
      by (intro scaled_mono[where B = 180] f180) simp_all
  qed
qed

text \<open>
  The claim as stated, with strict inequalities, fails: longitudes 0 and \<open>1 / 2 ^ 60\<close> are
  both projected to \<open>x = 180\<close>, and latitudes 0 and \<open>1 / 2 ^ 60\<close> both to \<open>y = 90\<close>, because
  the sums \<open>lon + 180\<close> and \<open>90 - lat\<close> are rounded.
\<close>

theorem latLonToXY_not_strictly_monotone:
  "latLonToXY any_runtime (Some (JNum (Fin 0))) (Some (JNum (Fin 0))) (Fin 360) (Fin 180) =
     Inr (Fin 180, Fin 90)
   \<and> latLonToXY any_runtime (Some (JNum (Fin (1 / 2 ^ 60)))) (Some (JNum (Fin (1 / 2 ^ 60))))
       (Fin 360) (Fin 180) = Inr (Fin 180, Fin 90)
   \<and> (0 :: rat) < 1 / 2 ^ 60 \<and> (1 :: rat) / 2 ^ 60 \<le> 90
   \<and> \<not> num_lt
         (fst (projr (latLonToXY any_runtime (Some (JNum (Fin 0))) (Some (JNum (Fin 0)))
                        (Fin 360) (Fin 180))))
         (fst (projr (latLonToXY any_runtime (Some (JNum (Fin 0))) (Some (JNum (Fin (1 / 2 ^ 60))))
                        (Fin 360) (Fin 180))))
   \<and> \<not> num_lt
         (snd (projr (latLonToXY any_runtime (Some (JNum (Fin (1 / 2 ^ 60)))) (Some (JNum (Fin 0)))
                        (Fin 360) (Fin 180))))
         (snd (projr (latLonToXY any_runtime (Some (JNum (Fin 0))) (Some (JNum (Fin 0)))
                        (Fin 360) (Fin 180))))"
  using fl_near_180 fl_near_90
  by (simp add: latLonToXY_numbers num_sub_def add.commute)

theorem latLonToXY_monotone_witness:
  "latLonToXY any_runtime (Some (JNum (Fin 0))) (Some (JNum (Fin 0))) (Fin 360) (Fin 180) =
     Inr (Fin 180, Fin 90)
   \<and> latLonToXY any_runtime (Some (JNum (Fin 10))) (Some (JNum (Fin 10))) (Fin 360) (Fin 180) =
     Inr (Fin 190, Fin 80)
   \<and> num_le (Fin 180) (Fin 190) \<and> num_le (Fin 80) (Fin 90)"
proof -
  have p: "latLonToXY any_runtime (Some (JNum (Fin 0))) (Some (JNum (Fin 0))) (Fin 360) (Fin 180) =
     Inr (Fin 180, Fin 90)"
    "latLonToXY any_runtime (Some (JNum (Fin 10))) (Some (JNum (Fin 10))) (Fin 360) (Fin 180) =
     Inr (Fin 190, Fin 80)"
    by (simp_all add: latLonToXY_numbers num_sub_def)
  show ?thesis
    using latLonToXY_monotone[where w = 360 and h = 180 and latA = 0 and latB = 10
        and lonA = 0 and lonB = 10 and rt = any_runtime, OF _ _ _ _ _ _ _ _ _ _ _ _ p] p
    by simp
qed

section \<open>Properties of the path builder\<close>

lemma valE_simps [simp]:
  "valE (Inr a) s k = k a"
  "valE (Inl e) s k = Thrown e s"
  by (simp_all add: valE_def)

lemma bindE_simps [simp]:
  "bindE (Inr a) f = f a"
  "bindE (Inl e) f = Inl e"
  by (simp_all add: bindE_def)

lemma js_lt_num [simp]: "js_lt rt (Some (JNum n)) m = Inr (num_lt n m)"
  by (simp add: js_lt_def ToNumber_def)

lemma drawRing_short:
  "length pts < 3 \<Longrightarrow> drawRing rt (JArr pts) i ctx = Done ctx"
  by (simp add: drawRing_def)

lemma drawLineStringPath_short:
  "length cs < 2 \<Longrightarrow> drawLineStringPath rt (Some (JArr cs)) ctx = Done ctx"
  by (simp add: drawLineStringPath_def)

text \<open>
  Claim C3.  A ring of a Polygon or MultiPolygon that is an array of fewer than 3 entries, and
  the coordinates of a LineString or of a line of a MultiLineString that are an array of
  fewer than 2 entries, leave the canvas as it was: no \<open>moveTo\<close>, \<open>lineTo\<close> or \<open>closePath\<close>
  reaches the context, and nothing is thrown.
\<close>

theorem short_rings_and_lines_not_drawn:
  "(length pts < 3 \<longrightarrow> drawRing rt (JArr pts) i ctx = Done ctx)
   \<and> (length cs < 2 \<longrightarrow> drawLineStringPath rt (Some (JArr cs)) ctx = Done ctx)"
  by (simp add: drawRing_short drawLineStringPath_short)

lemma getProp_Inr_cases:
  "getProp g k = Inr t \<Longrightarrow> \<exists>t'. getProp g k' = Inr t'"
  by (cases "(g, k)" rule: getProp.cases) auto

text \<open>
  Claim C10.  For a geometry whose \<open>type\<close> can be read and is none of \<open>Polygon\<close>,
  \<open>MultiPolygon\<close>, \<open>LineString\<close> and \<open>MultiLineString\<close>, \<open>drawGeometryPath\<close> completes
  without throwing and leaves the canvas as it was.
\<close>

theorem unknown_geometry_type_ignored:
  assumes "getProp geometry ''type'' = Inr t"
    and "t \<noteq> Some (JStr ''Polygon'')" and "t \<noteq> Some (JStr ''MultiPolygon'')"
    and "t \<noteq> Some (JStr ''LineString'')" and "t \<noteq> Some (JStr ''MultiLineString'')"
  shows "drawGeometryPath rt geometry ctx = Done ctx"
proof -
  obtain c where "getProp geometry ''coordinates'' = Inr c"
    using getProp_Inr_cases[OF assms(1)] by blast
  then show ?thesis using assms by (simp add: drawGeometryPath_def)
qed

lemma tracePoint_malformed: "malformed c \<Longrightarrow> tracePoint rt c i st = Done st"
  by (cases c) (simp_all add: tracePoint_def)

lemma wellformed_cases:
  assumes "wellformed c"
  obtains lon lat rest where "c = JArr (JNum lon # JNum lat # rest)"
  using assms by (cases c rule: wellformed.cases) auto

lemma index_of_simps [simp]: "index_of ''0'' = Some 0" "index_of ''1'' = Some 1"
  by (simp_all add: index_of_def)

lemma tracePoint_wellformed:
  assumes "wellformed c"
  shows "tracePoint rt c i (fp, ctx) =
     Done (False, ctx\<lparr>path := path ctx @
        [(if fp then case_prod MoveTo else case_prod LineTo) (projected rt ctx c)]\<rparr>)"
  using assms
  by (elim wellformed_cases)
     (simp add: tracePoint_def projected_def nth_opt_def latLonToXY_numbers moveTo_def lineTo_def)


lemma projected_path [simp]: "projected rt (ctx\<lparr>path := p\<rparr>) c = projected rt ctx c"
  by (simp add: projected_def)

lemma tracePoint_index: "tracePoint rt c i st = tracePoint rt c j st"
  by (simp add: tracePoint_def)

lemma forEach_from_skip_malformed:
  "forEach_from (tracePoint rt) i cs st =
   forEach_from (tracePoint rt) j (filter (\<lambda>c. \<not> malformed c) cs) st"
proof (induction cs arbitrary: i j st)
  case Nil
  show ?case by simp
next
  case (Cons c cs)
  show ?case
  proof (cases "malformed c")
    case True
    then show ?thesis using Cons.IH[of "Suc i" st j] by (simp add: tracePoint_malformed)
  next
    case False
    then show ?thesis
      using Cons.IH[of "Suc i" _ "Suc j"] tracePoint_index[of rt c i st j]
      by (simp split: outcome.split)
  qed
qed

lemma forEach_from_trace:
  assumes "list_all (\<lambda>c. malformed c \<or> wellformed c) cs"
  shows "forEach_from (tracePoint rt) i cs (fp, ctx) =
     Done (fp \<and> filter wellformed cs = [],
           ctx\<lparr>path := path ctx @ subpath fp (map (projected rt ctx) (filter wellformed cs))\<rparr>)"
  using assms
proof (induction cs arbitrary: i fp ctx)
  case Nil
  show ?case by simp
next
  case (Cons c cs)
  then have rest: "list_all (\<lambda>c. malformed c \<or> wellformed c) cs" by simp
  show ?case
  proof (cases "wellformed c")
    case True
    show ?thesis
      by (simp add: True tracePoint_wellformed Cons.IH[OF rest])
  next
    case False
    then have "malformed c" using Cons.prems by simp
    then show ?thesis
      by (simp add: False tracePoint_malformed Cons.IH[OF rest])
  qed
qed

lemma tracePoints_trace:
  assumes "list_all (\<lambda>c. malformed c \<or> wellformed c) cs"
  shows "tracePoints rt (Some (JArr cs)) ctx =
     Done (ctx\<lparr>path := path ctx @ subpath True (map (projected rt ctx) (filter wellformed cs))\<rparr>)"
  by (simp add: tracePoints_def forEach_from_trace[OF assms])

lemma drawRing_trace:
  assumes "list_all (\<lambda>c. malformed c \<or> wellformed c) cs" and "3 \<le> length cs"
  shows "drawRing rt (JArr cs) i ctx =
     Done (ctx\<lparr>path := path ctx @
             subpath True (map (projected rt ctx) (filter wellformed cs)) @ [ClosePath]\<rparr>)"
  using assms(2) by (simp add: drawRing_def tracePoints_trace[OF assms(1)] closePath_def)

lemma drawLineStringPath_trace:
  assumes "list_all (\<lambda>c. malformed c \<or> wellformed c) cs" and "2 \<le> length cs"
  shows "drawLineStringPath rt (Some (JArr cs)) ctx =
     Done (ctx\<lparr>path := path ctx @
             subpath True (map (projected rt ctx) (filter wellformed cs))\<rparr>)"
  using assms(2) by (simp add: drawLineStringPath_def tracePoints_trace[OF assms(1)])

lemma subpath_False: "subpath False ps = map (case_prod LineTo) ps"
  by (induction ps) auto

lemma filter_wellformed_all: "list_all wellformed cs \<Longrightarrow> filter wellformed cs = cs"
  by (induction cs) auto

lemma num_of_nat_numeral [simp]: "num_of_nat (numeral k) = Fin (numeral k)"
  by (simp add: num_of_nat_def)

lemma triangle_path:
  "drawGeometryPath rt (Some triangle) (createCanvas 360 180) =
     Done ((createCanvas 360 180)\<lparr>path :=
       [MoveTo (Fin 180) (Fin 90), LineTo (Fin 190) (Fin 90), LineTo (Fin 190) (Fin 80),
        ClosePath]\<rparr>)"
  by (simp add: triangle_def drawGeometryPath_def drawPolygonPath_def drawRing_def
      tracePoints_def tracePoint_def own_property_def nth_opt_def latLonToXY_numbers
      num_sub_def moveTo_def lineTo_def closePath_def createCanvas_def)

text \<open>
  Claim C4.  A ring of at least 3 entries, each an array that starts with two numbers, adds
  to the path a \<open>moveTo\<close> of the projection of the first entry, a \<open>lineTo\<close> of the
  projection of each later entry, in order, and then a \<open>closePath\<close>; the Polygon with the
  single ring \<open>[[0,0],[10,0],[10,10]]\<close> gives, on a 360 by 180 canvas, one \<open>moveTo\<close>, two
  \<open>lineTo\<close> and one \<open>closePath\<close>.
\<close>

theorem polygon_ring_closed_subpath:
  "(2 \<le> length ps \<longrightarrow> list_all wellformed (p # ps) \<longrightarrow>
      drawRing rt (JArr (p # ps)) i ctx =
        Done (ctx\<lparr>path := path ctx @
          case_prod MoveTo (projected rt ctx p) #
          map (\<lambda>q. case_prod LineTo (projected rt ctx q)) ps @ [ClosePath]\<rparr>))
   \<and> drawGeometryPath rt (Some triangle) (createCanvas 360 180) =
     Done ((createCanvas 360 180)\<lparr>path :=
       [MoveTo (Fin 180) (Fin 90), LineTo (Fin 190) (Fin 90), LineTo (Fin 190) (Fin 80),
        ClosePath]\<rparr>)"
proof (intro conjI impI)
  assume len: "2 \<le> length ps" and wf: "list_all wellformed (p # ps)"
  have mw: "list_all (\<lambda>c. malformed c \<or> wellformed c) (p # ps)"
    using wf by (simp add: list_all_iff)
  have f: "filter wellformed (p # ps) = p # ps"
    using wf by (rule filter_wellformed_all)
  show "drawRing rt (JArr (p # ps)) i ctx =
        Done (ctx\<lparr>path := path ctx @
          case_prod MoveTo (projected rt ctx p) #
          map (\<lambda>q. case_prod LineTo (projected rt ctx q)) ps @ [ClosePath]\<rparr>)"
    using len drawRing_trace[OF mw, of rt i ctx]
    by (simp add: f subpath_False comp_def del: filter.simps)
next
  show "drawGeometryPath rt (Some triangle) (createCanvas 360 180) =
     Done ((createCanvas 360 180)\<lparr>path :=
       [MoveTo (Fin 180) (Fin 90), LineTo (Fin 190) (Fin 90), LineTo (Fin 190) (Fin 80),
        ClosePath]\<rparr>)"
    by (rule triangle_path)
qed

text \<open>
  Claim C5.  An entry of a ring or line that is \<open>null\<close> or an array of fewer than 2
  components is skipped on its own: tracing the entries gives what tracing the entries
  without the malformed ones gives, and nothing is thrown for them.  So a ring of at
  least 3 entries (a line of at least 2), each malformed or well-formed, is drawn as the
  sub-path through its well-formed entries.
\<close>

theorem malformed_entries_skipped:
  "tracePoints rt (Some (JArr cs)) ctx =
     tracePoints rt (Some (JArr (filter (\<lambda>c. \<not> malformed c) cs))) ctx
   \<and> (list_all (\<lambda>c. malformed c \<or> wellformed c) cs \<longrightarrow> 3 \<le> length cs \<longrightarrow>
        drawRing rt (JArr cs) i ctx =
          Done (ctx\<lparr>path := path ctx @
            subpath True (map (projected rt ctx) (filter wellformed cs)) @ [ClosePath]\<rparr>))
   \<and> (list_all (\<lambda>c. malformed c \<or> wellformed c) cs \<longrightarrow> 2 \<le> length cs \<longrightarrow>
        drawLineStringPath rt (Some (JArr cs)) ctx =
          Done (ctx\<lparr>path := path ctx @
            subpath True (map (projected rt ctx) (filter wellformed cs))\<rparr>))"
  using forEach_from_skip_malformed[of rt 0 cs "(True, ctx)" 0]
  by (simp add: tracePoints_def drawRing_trace drawLineStringPath_trace)


subsection \<open>The path builder only appends to the path\<close>

lemma finish_simps [simp]:
  "finish None s = Done s"
  "finish (Some e) s = Thrown e s"
  by (simp_all add: finish_def)

lemma tracePoint_onto:
  "tracePoint rt c i (fp, ctx) =
     (case tracePoint rt c i (fp, createCanvas (width ctx) (height ctx)) of
        Done st \<Rightarrow> Done (fst st, ctx\<lparr>path := path ctx @ path (snd st)\<rparr>)
      | Thrown e st \<Rightarrow> Thrown e (fst st, ctx\<lparr>path := path ctx @ path (snd st)\<rparr>))"
  by (simp add: tracePoint_def valE_def createCanvas_def moveTo_def lineTo_def
      split: sum.split prod.split)

lemma tracePoint_appends:
  "\<exists>eo ops fp'. \<forall>ctx. width ctx = w \<longrightarrow> height ctx = h \<longrightarrow>
     tracePoint rt c i (fp, ctx) = finish eo (fp', ctx\<lparr>path := path ctx @ ops\<rparr>)"
proof (cases "tracePoint rt c i (fp, createCanvas w h)")
  case (Done st)
  have "\<forall>ctx. width ctx = w \<longrightarrow> height ctx = h \<longrightarrow>
     tracePoint rt c i (fp, ctx) = finish None (fst st, ctx\<lparr>path := path ctx @ path (snd st)\<rparr>)"
    using Done by (subst tracePoint_onto) auto
  then show ?thesis by blast
next
  case (Thrown e st)
  have "\<forall>ctx. width ctx = w \<longrightarrow> height ctx = h \<longrightarrow>
     tracePoint rt c i (fp, ctx) = finish (Some e) (fst st, ctx\<lparr>path := path ctx @ path (snd st)\<rparr>)"
    using Thrown by (subst tracePoint_onto) auto
  then show ?thesis by blast
qed


lemma appendsI:
  assumes "\<And>ctx. width ctx = w \<Longrightarrow> height ctx = h \<Longrightarrow>
     op ctx = finish eo (ctx\<lparr>path := path ctx @ ops\<rparr>)"
  shows "appends w h op"
  unfolding appends_def using assms by blast

lemma appends_Done: "appends w h Done"
  by (rule appendsI[of _ _ _ None "[]"]) simp

lemma appends_Thrown: "appends w h (Thrown e)"
  by (rule appendsI[of _ _ _ "Some e" "[]"]) simp

lemma appends_closePath: "appends w h (\<lambda>ctx. Done (closePath ctx))"
  by (rule appendsI[of _ _ _ None "[ClosePath]"]) (simp add: closePath_def)

lemma appends_valE:
  assumes "\<And>a. appends w h (\<lambda>ctx. k a ctx)"
  shows "appends w h (\<lambda>ctx. valE m ctx (\<lambda>a. k a ctx))"
proof (cases m)
  case (Inl e)
  then show ?thesis using appends_Thrown[of w h e] by simp
next
  case (Inr a)
  then show ?thesis using assms[of a] by simp
qed

lemma appends_if:
  assumes "appends w h f" "appends w h g"
  shows "appends w h (\<lambda>ctx. if b then f ctx else g ctx)"
  using assms by (cases b) (simp_all add: appends_def)

lemma appends_seq:
  assumes "appends w h f" "appends w h g"
  shows "appends w h (\<lambda>ctx. case f ctx of Done c \<Rightarrow> g c | Thrown e c \<Rightarrow> Thrown e c)"
proof -
  obtain eo1 ops1 where f: "\<And>ctx. width ctx = w \<Longrightarrow> height ctx = h \<Longrightarrow>
     f ctx = finish eo1 (ctx\<lparr>path := path ctx @ ops1\<rparr>)"
    using assms(1) unfolding appends_def by blast
  obtain eo2 ops2 where g: "\<And>ctx. width ctx = w \<Longrightarrow> height ctx = h \<Longrightarrow>
     g ctx = finish eo2 (ctx\<lparr>path := path ctx @ ops2\<rparr>)"
    using assms(2) unfolding appends_def by blast
  show ?thesis
  proof (cases eo1)
    case None
    show ?thesis
      by (rule appendsI[of _ _ _ eo2 "ops1 @ ops2"]) (simp add: f g None)
  next
    case (Some e)
    show ?thesis
      by (rule appendsI[of _ _ _ "Some e" ops1]) (simp add: f Some)
  qed
qed

lemma appends_forEach_from:
  assumes "\<And>x i. appends w h (f x i)"
  shows "appends w h (forEach_from f i xs)"
proof (induction xs arbitrary: i)
  case Nil
  show ?case using appends_Done[of w h] by (simp add: appends_def)
next
  case (Cons x xs)
  have "appends w h (\<lambda>ctx. case f x i ctx of Done c \<Rightarrow> forEach_from f (Suc i) xs c
                                              | Thrown e c \<Rightarrow> Thrown e c)"
    using assms[of x i] Cons.IH[of "Suc i"] by (rule appends_seq)
  then show ?case by (simp add: appends_def)
qed

lemma appends_forEach:
  assumes "\<And>x i. appends w h (f x i)"
  shows "appends w h (forEach v f)"
proof (cases "\<exists>xs. v = Some (JArr xs)")
  case True
  then obtain xs where v: "v = Some (JArr xs)" by blast
  show ?thesis using appends_forEach_from[where f = f and i = 0 and xs = xs, OF assms]
    by (simp add: v appends_def)
next
  case False
  then have "forEach v f = Thrown TypeError"
    by (cases "(v, f, undefined :: canvas)" rule: forEach.cases) (auto simp: fun_eq_iff)
  then show ?thesis by (simp add: appends_Thrown)
qed

lemma forEach_from_tracePoint_appends:
  "\<exists>eo ops fp'. \<forall>ctx. width ctx = w \<longrightarrow> height ctx = h \<longrightarrow>
     forEach_from (tracePoint rt) i cs (fp, ctx) = finish eo (fp', ctx\<lparr>path := path ctx @ ops\<rparr>)"
proof (induction cs arbitrary: i fp)
  case Nil
  have "\<forall>ctx. width ctx = w \<longrightarrow> height ctx = h \<longrightarrow>
     forEach_from (tracePoint rt) i [] (fp, ctx) = finish None (fp, ctx\<lparr>path := path ctx @ []\<rparr>)"
    by simp
  then show ?case by blast
next
  case (Cons c cs)
  obtain eo1 ops1 fp1 where 1: "\<And>ctx. width ctx = w \<Longrightarrow> height ctx = h \<Longrightarrow>
     tracePoint rt c i (fp, ctx) = finish eo1 (fp1, ctx\<lparr>path := path ctx @ ops1\<rparr>)"
    using tracePoint_appends[of w h rt c i fp] by blast
  obtain eo2 ops2 fp2 where 2: "\<And>ctx. width ctx = w \<Longrightarrow> height ctx = h \<Longrightarrow>
     forEach_from (tracePoint rt) (Suc i) cs (fp1, ctx) =
       finish eo2 (fp2, ctx\<lparr>path := path ctx @ ops2\<rparr>)"
    using Cons.IH[of "Suc i" fp1] by blast
  show ?case
  proof (cases eo1)
    case None
    have "\<forall>ctx. width ctx = w \<longrightarrow> height ctx = h \<longrightarrow>
       forEach_from (tracePoint rt) i (c # cs) (fp, ctx) =
         finish eo2 (fp2, ctx\<lparr>path := path ctx @ (ops1 @ ops2)\<rparr>)"
      by (simp add: 1 2 None)
    then show ?thesis by blast
  next
    case (Some e)
    have "\<forall>ctx. width ctx = w \<longrightarrow> height ctx = h \<longrightarrow>
       forEach_from (tracePoint rt) i (c # cs) (fp, ctx) =
         finish (Some e) (fp1, ctx\<lparr>path := path ctx @ ops1\<rparr>)"
      by (simp add: 1 Some)
    then show ?thesis by blast
  qed
qed

lemma appends_tracePoints: "appends w h (tracePoints rt coords)"
proof (cases "\<exists>cs. coords = Some (JArr cs)")
  case True
  then obtain cs where v: "coords = Some (JArr cs)" by blast
  obtain eo ops fp' where *: "\<And>ctx. width ctx = w \<Longrightarrow> height ctx = h \<Longrightarrow>
     forEach_from (tracePoint rt) 0 cs (True, ctx) = finish eo (fp', ctx\<lparr>path := path ctx @ ops\<rparr>)"
    using forEach_from_tracePoint_appends[of w h rt 0 cs True] by blast
  show ?thesis
    by (rule appendsI[of _ _ _ eo ops]) (cases eo; simp add: tracePoints_def v *)
next
  case False
  then have "forEach coords (tracePoint rt) = Thrown TypeError"
    by (cases "(coords, tracePoint rt, undefined :: bool \<times> canvas)" rule: forEach.cases)
       (auto simp: fun_eq_iff)
  then have "tracePoints rt coords = Thrown TypeError"
    by (simp add: tracePoints_def fun_eq_iff)
  then show ?thesis by (simp add: appends_Thrown)
qed

lemma appends_drawRing: "appends w h (drawRing rt ring i)"
  unfolding drawRing_def[abs_def]
  by (intro appends_valE appends_if appends_seq appends_Done appends_closePath appends_tracePoints)

lemma appends_drawPolygonPath: "appends w h (drawPolygonPath rt coordinates)"
  unfolding drawPolygonPath_def[abs_def]
  by (intro appends_forEach appends_drawRing)

lemma appends_drawLineStringPath: "appends w h (drawLineStringPath rt coordinates)"
  unfolding drawLineStringPath_def[abs_def]
  by (intro appends_valE appends_if appends_Done appends_tracePoints)

lemma appends_drawGeometryPath: "appends w h (drawGeometryPath rt geometry)"
  unfolding drawGeometryPath_def[abs_def]
  by (intro appends_valE appends_if appends_Done appends_forEach
      appends_drawPolygonPath appends_drawLineStringPath)


lemma drawGeometryPath_frame:
  "drawGeometryPath rt g ctx =
     (case drawGeometryPath rt g (createCanvas (width ctx) (height ctx)) of
        Done b \<Rightarrow> Done (ctx\<lparr>path := path ctx @ path b\<rparr>)
      | Thrown e b \<Rightarrow> Thrown e (ctx\<lparr>path := path ctx @ path b\<rparr>))"
proof -
  obtain eo ops where *: "\<And>c. width c = width ctx \<Longrightarrow> height c = height ctx \<Longrightarrow>
     drawGeometryPath rt g c = finish eo (c\<lparr>path := path c @ ops\<rparr>)"
    using appends_drawGeometryPath[of "width ctx" "height ctx" rt g] unfolding appends_def by blast
  have b: "drawGeometryPath rt g (createCanvas (width ctx) (height ctx)) =
     finish eo ((createCanvas (width ctx) (height ctx))\<lparr>path := ops\<rparr>)"
    using *[of "createCanvas (width ctx) (height ctx)"] by (simp add: createCanvas_def)
  show ?thesis
    by (cases eo) (simp_all add: b *[of ctx])
qed

subsection \<open>The two drawing passes\<close>

lemma drawLandFeature_effect:
  assumes "feature \<noteq> JNull"
    and "width (offscreenCanvas s) = w" and "height (offscreenCanvas s) = h"
  shows "\<exists>p. drawLandFeature rt feature k s =
     Done (s\<lparr>offscreenCanvas := (offscreenCanvas s)\<lparr>path := p,
               bitmap := bitmap (offscreenCanvas s) @
                 map (Fill (fillStyle (offscreenCanvas s))) (drawnPaths rt w h [feature])\<rparr>,
             console := console s @ warnings ''Error drawing land feature'' rt w h k [feature]\<rparr>)"
proof -
  obtain g where g: "getProp (Some feature) ''geometry'' = Inr g"
    using assms(1) by (cases feature) auto
  show ?thesis
  proof (cases "truthy g")
    case False
    have "drawLandFeature rt feature k s =
       Done (s\<lparr>offscreenCanvas := (offscreenCanvas s)\<lparr>path := path (offscreenCanvas s),
               bitmap := bitmap (offscreenCanvas s) @
                 map (Fill (fillStyle (offscreenCanvas s))) (drawnPaths rt w h [feature])\<rparr>,
             console := console s @ warnings ''Error drawing land feature'' rt w h k [feature]\<rparr>)"
      using False
      by (simp add: drawLandFeature_def g drawnPaths_def warnings_def featurePath_def)
    then show ?thesis by blast
  next
    case True
    show ?thesis
    proof (cases "drawGeometryPath rt g (createCanvas w h)")
      case (Done b)
      have "drawLandFeature rt feature k s =
       Done (s\<lparr>offscreenCanvas := (offscreenCanvas s)\<lparr>path := path b,
               bitmap := bitmap (offscreenCanvas s) @
                 map (Fill (fillStyle (offscreenCanvas s))) (drawnPaths rt w h [feature])\<rparr>,
             console := console s @ warnings ''Error drawing land feature'' rt w h k [feature]\<rparr>)"
        using True Done assms(2,3)
        by (simp add: drawLandFeature_def g drawnPaths_def warnings_def featurePath_def
            drawGeometryPath_frame[of rt g "(offscreenCanvas s)\<lparr>path := []\<rparr>"] beginPath_def fill_def)
      then show ?thesis by blast
    next
      case (Thrown e b)
      have "drawLandFeature rt feature k s =
       Done (s\<lparr>offscreenCanvas := (offscreenCanvas s)\<lparr>path := path b,
               bitmap := bitmap (offscreenCanvas s) @
                 map (Fill (fillStyle (offscreenCanvas s))) (drawnPaths rt w h [feature])\<rparr>,
             console := console s @ warnings ''Error drawing land feature'' rt w h k [feature]\<rparr>)"
        using True Thrown assms(2,3)
        by (simp add: drawLandFeature_def g drawnPaths_def warnings_def featurePath_def
            drawGeometryPath_frame[of rt g "(offscreenCanvas s)\<lparr>path := []\<rparr>"] beginPath_def)
      then show ?thesis by blast
    qed
  qed
qed


lemma drawnPaths_Cons: "drawnPaths rt w h (f # fs) = drawnPaths rt w h [f] @ drawnPaths rt w h fs"
  by (simp add: drawnPaths_def)

lemma warnings_Cons:
  "warnings msg rt w h i (f # fs) = warnings msg rt w h i [f] @ warnings msg rt w h (Suc i) fs"
  by (simp add: warnings_def)

lemma drawnPaths_Nil [simp]: "drawnPaths rt w h [] = []"
  by (simp add: drawnPaths_def)

lemma warnings_Nil [simp]: "warnings msg rt w h i [] = []"
  by (simp add: warnings_def)

lemma land_pass:
  assumes "JNull \<notin> set fs"
    and "width (offscreenCanvas s) = w" and "height (offscreenCanvas s) = h"
  shows "\<exists>p. forEach_from (drawLandFeature rt) i fs s =
     Done (s\<lparr>offscreenCanvas := (offscreenCanvas s)\<lparr>path := p,
               bitmap := bitmap (offscreenCanvas s) @
                 map (Fill (fillStyle (offscreenCanvas s))) (drawnPaths rt w h fs)\<rparr>,
             console := console s @ warnings ''Error drawing land feature'' rt w h i fs\<rparr>)"
  using assms
proof (induction fs arbitrary: i s)
  case Nil
  have "forEach_from (drawLandFeature rt) i [] s =
     Done (s\<lparr>offscreenCanvas := (offscreenCanvas s)\<lparr>path := path (offscreenCanvas s),
               bitmap := bitmap (offscreenCanvas s) @
                 map (Fill (fillStyle (offscreenCanvas s))) (drawnPaths rt w h [])\<rparr>,
             console := console s @ warnings ''Error drawing land feature'' rt w h i []\<rparr>)"
    by simp
  then show ?case by blast
next
  case (Cons f fs)
  from Cons.prems have f: "f \<noteq> JNull" and fs: "JNull \<notin> set fs" by auto
  obtain p1 where 1: "drawLandFeature rt f i s =
     Done (s\<lparr>offscreenCanvas := (offscreenCanvas s)\<lparr>path := p1,
               bitmap := bitmap (offscreenCanvas s) @
                 map (Fill (fillStyle (offscreenCanvas s))) (drawnPaths rt w h [f])\<rparr>,
             console := console s @ warnings ''Error drawing land feature'' rt w h i [f]\<rparr>)"
    (is "_ = Done ?s1")
    using drawLandFeature_effect[OF f Cons.prems(2,3), of rt i] by blast
  have "width (offscreenCanvas ?s1) = w" "height (offscreenCanvas ?s1) = h"
    using Cons.prems(2,3) by simp_all
  from Cons.IH[OF fs this, of "Suc i"]
  obtain p where 2: "forEach_from (drawLandFeature rt) (Suc i) fs ?s1 =
     Done (?s1\<lparr>offscreenCanvas := (offscreenCanvas ?s1)\<lparr>path := p,
               bitmap := bitmap (offscreenCanvas ?s1) @
                 map (Fill (fillStyle (offscreenCanvas ?s1))) (drawnPaths rt w h fs)\<rparr>,
             console := console ?s1 @ warnings ''Error drawing land feature'' rt w h (Suc i) fs\<rparr>)"
    by blast
  have "forEach_from (drawLandFeature rt) i (f # fs) s =
     Done (s\<lparr>offscreenCanvas := (offscreenCanvas s)\<lparr>path := p,
               bitmap := bitmap (offscreenCanvas s) @
                 map (Fill (fillStyle (offscreenCanvas s))) (drawnPaths rt w h (f # fs))\<rparr>,
             console := console s @ warnings ''Error drawing land feature'' rt w h i (f # fs)\<rparr>)"
    by (simp add: 1 2 drawnPaths_Cons[of rt w h f fs] warnings_Cons[of _ rt w h i f fs])
  then show ?case by blast
qed

lemma drawCountryFeature_effect:
  assumes "feature \<noteq> JNull"
    and "width (offscreenCanvas s) = w" and "height (offscreenCanvas s) = h"
  shows "\<exists>p. drawCountryFeature rt feature k s =
     Done (s\<lparr>offscreenCanvas := (offscreenCanvas s)\<lparr>path := p,
               bitmap := bitmap (offscreenCanvas s) @
                 map (Stroke (strokeStyle (offscreenCanvas s)) (lineWidth (offscreenCanvas s))) (drawnPaths rt w h [feature])\<rparr>,
             console := console s @ warnings ''Error drawing country border'' rt w h k [feature]\<rparr>)"
proof -
  obtain g where g: "getProp (Some feature) ''geometry'' = Inr g"
    using assms(1) by (cases feature) auto
  show ?thesis
  proof (cases "truthy g")
    case False
    have "drawCountryFeature rt feature k s =
       Done (s\<lparr>offscreenCanvas := (offscreenCanvas s)\<lparr>path := path (offscreenCanvas s),
               bitmap := bitmap (offscreenCanvas s) @
                 map (Stroke (strokeStyle (offscreenCanvas s)) (lineWidth (offscreenCanvas s))) (drawnPaths rt w h [feature])\<rparr>,
             console := console s @ warnings ''Error drawing country border'' rt w h k [feature]\<rparr>)"
      using False
      by (simp add: drawCountryFeature_def g drawnPaths_def warnings_def featurePath_def)
    then show ?thesis by blast
  next
    case True
    show ?thesis
    proof (cases "drawGeometryPath rt g (createCanvas w h)")
      case (Done b)
      have "drawCountryFeature rt feature k s =
       Done (s\<lparr>offscreenCanvas := (offscreenCanvas s)\<lparr>path := path b,
               bitmap := bitmap (offscreenCanvas s) @
                 map (Stroke (strokeStyle (offscreenCanvas s)) (lineWidth (offscreenCanvas s))) (drawnPaths rt w h [feature])\<rparr>,
             console := console s @ warnings ''Error drawing country border'' rt w h k [feature]\<rparr>)"
        using True Done assms(2,3)
        by (simp add: drawCountryFeature_def g drawnPaths_def warnings_def featurePath_def
            drawGeometryPath_frame[of rt g "(offscreenCanvas s)\<lparr>path := []\<rparr>"] beginPath_def stroke_def)
      then show ?thesis by blast
    next
      case (Thrown e b)
      have "drawCountryFeature rt feature k s =
       Done (s\<lparr>offscreenCanvas := (offscreenCanvas s)\<lparr>path := path b,
               bitmap := bitmap (offscreenCanvas s) @
                 map (Stroke (strokeStyle (offscreenCanvas s)) (lineWidth (offscreenCanvas s))) (drawnPaths rt w h [feature])\<rparr>,
             console := console s @ warnings ''Error drawing country border'' rt w h k [feature]\<rparr>)"
        using True Thrown assms(2,3)
        by (simp add: drawCountryFeature_def g drawnPaths_def warnings_def featurePath_def
            drawGeometryPath_frame[of rt g "(offscreenCanvas s)\<lparr>path := []\<rparr>"] beginPath_def)
      then show ?thesis by blast
    qed
  qed
qed


lemma country_pass:
  assumes "JNull \<notin> set fs"
    and "width (offscreenCanvas s) = w" and "height (offscreenCanvas s) = h"
  shows "\<exists>p. forEach_from (drawCountryFeature rt) i fs s =
     Done (s\<lparr>offscreenCanvas := (offscreenCanvas s)\<lparr>path := p,
               bitmap := bitmap (offscreenCanvas s) @
                 map (Stroke (strokeStyle (offscreenCanvas s)) (lineWidth (offscreenCanvas s))) (drawnPaths rt w h fs)\<rparr>,
             console := console s @ warnings ''Error drawing country border'' rt w h i fs\<rparr>)"
  using assms
proof (induction fs arbitrary: i s)
  case Nil
  have "forEach_from (drawCountryFeature rt) i [] s =
     Done (s\<lparr>offscreenCanvas := (offscreenCanvas s)\<lparr>path := path (offscreenCanvas s),
               bitmap := bitmap (offscreenCanvas s) @
                 map (Stroke (strokeStyle (offscreenCanvas s)) (lineWidth (offscreenCanvas s))) (drawnPaths rt w h [])\<rparr>,
             console := console s @ warnings ''Error drawing country border'' rt w h i []\<rparr>)"
    by simp
  then show ?case by blast
next
  case (Cons f fs)
  from Cons.prems have f: "f \<noteq> JNull" and fs: "JNull \<notin> set fs" by auto
  obtain p1 where 1: "drawCountryFeature rt f i s =
     Done (s\<lparr>offscreenCanvas := (offscreenCanvas s)\<lparr>path := p1,
               bitmap := bitmap (offscreenCanvas s) @
                 map (Stroke (strokeStyle (offscreenCanvas s)) (lineWidth (offscreenCanvas s))) (drawnPaths rt w h [f])\<rparr>,
             console := console s @ warnings ''Error drawing country border'' rt w h i [f]\<rparr>)"
    (is "_ = Done ?s1")
    using drawCountryFeature_effect[OF f Cons.prems(2,3), of rt i] by blast
  have "width (offscreenCanvas ?s1) = w" "height (offscreenCanvas ?s1) = h"
    using Cons.prems(2,3) by simp_all
  from Cons.IH[OF fs this, of "Suc i"]
  obtain p where 2: "forEach_from (drawCountryFeature rt) (Suc i) fs ?s1 =
     Done (?s1\<lparr>offscreenCanvas := (offscreenCanvas ?s1)\<lparr>path := p,
               bitmap := bitmap (offscreenCanvas ?s1) @
                 map (Stroke (strokeStyle (offscreenCanvas ?s1)) (lineWidth (offscreenCanvas ?s1))) (drawnPaths rt w h fs)\<rparr>,
             console := console ?s1 @ warnings ''Error drawing country border'' rt w h (Suc i) fs\<rparr>)"
    by blast
  have "forEach_from (drawCountryFeature rt) i (f # fs) s =
     Done (s\<lparr>offscreenCanvas := (offscreenCanvas s)\<lparr>path := p,
               bitmap := bitmap (offscreenCanvas s) @
                 map (Stroke (strokeStyle (offscreenCanvas s)) (lineWidth (offscreenCanvas s))) (drawnPaths rt w h (f # fs))\<rparr>,
             console := console s @ warnings ''Error drawing country border'' rt w h i (f # fs)\<rparr>)"
    by (simp add: 1 2 drawnPaths_Cons[of rt w h f fs] warnings_Cons[of _ rt w h i f fs])
  then show ?case by blast
qed


lemma drawLandAreas_pass:
  assumes "getProp (Some (landData s)) ''features'' = Inr (Some (JArr fs))" and "JNull \<notin> set fs"
  shows "\<exists>p. drawLandAreas rt s =
     Done (s\<lparr>offscreenCanvas := (offscreenCanvas s)\<lparr>fillStyle := ''#90EE90'',
               strokeStyle := ''transparent'', path := p,
               bitmap := bitmap (offscreenCanvas s) @
                 map (Fill ''#90EE90'')
                   (drawnPaths rt (width (offscreenCanvas s)) (height (offscreenCanvas s)) fs)\<rparr>,
             console := console s @
               warnings ''Error drawing land feature'' rt (width (offscreenCanvas s))
                 (height (offscreenCanvas s)) 0 fs\<rparr>)"
proof -
  let ?s1 = "s\<lparr>offscreenCanvas :=
     (offscreenCanvas s)\<lparr>fillStyle := ''#90EE90'', strokeStyle := ''transparent''\<rparr>\<rparr>"
  obtain p where "forEach_from (drawLandFeature rt) 0 fs ?s1 =
     Done (?s1\<lparr>offscreenCanvas := (offscreenCanvas ?s1)\<lparr>path := p,
               bitmap := bitmap (offscreenCanvas ?s1) @
                 map (Fill (fillStyle (offscreenCanvas ?s1)))
                   (drawnPaths rt (width (offscreenCanvas s)) (height (offscreenCanvas s)) fs)\<rparr>,
             console := console ?s1 @
               warnings ''Error drawing land feature'' rt (width (offscreenCanvas s))
                 (height (offscreenCanvas s)) 0 fs\<rparr>)"
    using land_pass[OF assms(2), of ?s1 "width (offscreenCanvas s)" "height (offscreenCanvas s)" rt 0]
    by auto
  then have "drawLandAreas rt s =
     Done (s\<lparr>offscreenCanvas := (offscreenCanvas s)\<lparr>fillStyle := ''#90EE90'',
               strokeStyle := ''transparent'', path := p,
               bitmap := bitmap (offscreenCanvas s) @
                 map (Fill ''#90EE90'')
                   (drawnPaths rt (width (offscreenCanvas s)) (height (offscreenCanvas s)) fs)\<rparr>,
             console := console s @
               warnings ''Error drawing land feature'' rt (width (offscreenCanvas s))
                 (height (offscreenCanvas s)) 0 fs\<rparr>)"
    by (simp add: drawLandAreas_def assms(1))
  then show ?thesis by blast
qed

lemma drawCountryBorders_pass:
  assumes "getProp (Some (outlineData s)) ''features'' = Inr (Some (JArr fs))" and "JNull \<notin> set fs"
  shows "\<exists>p. drawCountryBorders rt s =
     Done (s\<lparr>offscreenCanvas := (offscreenCanvas s)\<lparr>strokeStyle := ''#000000'',
               fillStyle := ''transparent'', lineWidth := 1, path := p,
               bitmap := bitmap (offscreenCanvas s) @
                 map (Stroke ''#000000'' 1)
                   (drawnPaths rt (width (offscreenCanvas s)) (height (offscreenCanvas s)) fs)\<rparr>,
             console := console s @
               warnings ''Error drawing country border'' rt (width (offscreenCanvas s))
                 (height (offscreenCanvas s)) 0 fs\<rparr>)"
proof -
  let ?s1 = "s\<lparr>offscreenCanvas :=
     (offscreenCanvas s)\<lparr>strokeStyle := ''#000000'', fillStyle := ''transparent'',
                          lineWidth := 1\<rparr>\<rparr>"
  obtain p where "forEach_from (drawCountryFeature rt) 0 fs ?s1 =
     Done (?s1\<lparr>offscreenCanvas := (offscreenCanvas ?s1)\<lparr>path := p,
               bitmap := bitmap (offscreenCanvas ?s1) @
                 map (Stroke (strokeStyle (offscreenCanvas ?s1)) (lineWidth (offscreenCanvas ?s1)))
                   (drawnPaths rt (width (offscreenCanvas s)) (height (offscreenCanvas s)) fs)\<rparr>,
             console := console ?s1 @
               warnings ''Error drawing country border'' rt (width (offscreenCanvas s))
                 (height (offscreenCanvas s)) 0 fs\<rparr>)"
    using country_pass[OF assms(2), of ?s1 "width (offscreenCanvas s)" "height (offscreenCanvas s)" rt 0]
    by auto
  then have "drawCountryBorders rt s =
     Done (s\<lparr>offscreenCanvas := (offscreenCanvas s)\<lparr>strokeStyle := ''#000000'',
               fillStyle := ''transparent'', lineWidth := 1, path := p,
               bitmap := bitmap (offscreenCanvas s) @
                 map (Stroke ''#000000'' 1)
                   (drawnPaths rt (width (offscreenCanvas s)) (height (offscreenCanvas s)) fs)\<rparr>,
             console := console s @
               warnings ''Error drawing country border'' rt (width (offscreenCanvas s))
                 (height (offscreenCanvas s)) 0 fs\<rparr>)"
    by (simp add: drawCountryBorders_def assms(1))
  then show ?thesis by blast
qed

text \<open>
  Claim C6, amended.  For a feature list with no \<open>null\<close> entry, the land pass and the
  border pass complete: each feature whose geometry is drawn without an error is filled
  (stroked), in order, and for each feature whose geometry throws, the error is caught and
  logged as a warning with the index of the feature, and the pass goes on with the
  features after it.
\<close>

theorem feature_errors_caught:
  "(getProp (Some (landData s)) ''features'' = Inr (Some (JArr fs)) \<longrightarrow> JNull \<notin> set fs \<longrightarrow>
      (\<exists>s'. drawLandAreas rt s = Done s'
         \<and> bitmap (offscreenCanvas s') = bitmap (offscreenCanvas s) @
             map (Fill ''#90EE90'')
               (drawnPaths rt (width (offscreenCanvas s)) (height (offscreenCanvas s)) fs)
         \<and> console s' = console s @
             warnings ''Error drawing land feature'' rt (width (offscreenCanvas s))
               (height (offscreenCanvas s)) 0 fs))
   \<and> (getProp (Some (outlineData s)) ''features'' = Inr (Some (JArr gs)) \<longrightarrow> JNull \<notin> set gs \<longrightarrow>
      (\<exists>s'. drawCountryBorders rt s = Done s'
         \<and> bitmap (offscreenCanvas s') = bitmap (offscreenCanvas s) @
             map (Stroke ''#000000'' 1)
               (drawnPaths rt (width (offscreenCanvas s)) (height (offscreenCanvas s)) gs)
         \<and> console s' = console s @
             warnings ''Error drawing country border'' rt (width (offscreenCanvas s))
               (height (offscreenCanvas s)) 0 gs))"
proof (intro conjI impI)
  assume a: "getProp (Some (landData s)) ''features'' = Inr (Some (JArr fs))" "JNull \<notin> set fs"
  obtain p where "drawLandAreas rt s =
     Done (s\<lparr>offscreenCanvas := (offscreenCanvas s)\<lparr>fillStyle := ''#90EE90'',
               strokeStyle := ''transparent'', path := p,
               bitmap := bitmap (offscreenCanvas s) @
                 map (Fill ''#90EE90'')
                   (drawnPaths rt (width (offscreenCanvas s)) (height (offscreenCanvas s)) fs)\<rparr>,
             console := console s @
               warnings ''Error drawing land feature'' rt (width (offscreenCanvas s))
                 (height (offscreenCanvas s)) 0 fs\<rparr>)"
    using drawLandAreas_pass[OF a] by blast
  then show "\<exists>s'. drawLandAreas rt s = Done s'
         \<and> bitmap (offscreenCanvas s') = bitmap (offscreenCanvas s) @
             map (Fill ''#90EE90'')
               (drawnPaths rt (width (offscreenCanvas s)) (height (offscreenCanvas s)) fs)
         \<and> console s' = console s @
             warnings ''Error drawing land feature'' rt (width (offscreenCanvas s))
               (height (offscreenCanvas s)) 0 fs"
    by simp
next
  assume a: "getProp (Some (outlineData s)) ''features'' = Inr (Some (JArr gs))" "JNull \<notin> set gs"
  obtain p where "drawCountryBorders rt s =
     Done (s\<lparr>offscreenCanvas := (offscreenCanvas s)\<lparr>strokeStyle := ''#000000'',
               fillStyle := ''transparent'', lineWidth := 1, path := p,
               bitmap := bitmap (offscreenCanvas s) @
                 map (Stroke ''#000000'' 1)
                   (drawnPaths rt (width (offscreenCanvas s)) (height (offscreenCanvas s)) gs)\<rparr>,
             console := console s @
               warnings ''Error drawing country border'' rt (width (offscreenCanvas s))
                 (height (offscreenCanvas s)) 0 gs\<rparr>)"
    using drawCountryBorders_pass[OF a] by blast
  then show "\<exists>s'. drawCountryBorders rt s = Done s'
         \<and> bitmap (offscreenCanvas s') = bitmap (offscreenCanvas s) @
             map (Stroke ''#000000'' 1)
               (drawnPaths rt (width (offscreenCanvas s)) (height (offscreenCanvas s)) gs)
         \<and> console s' = console s @
             warnings ''Error drawing country border'' rt (width (offscreenCanvas s))
               (height (offscreenCanvas s)) 0 gs"
    by simp
qed

section \<open>The properties at concrete inputs\<close>

theorem short_rings_and_lines_not_drawn_witness:
  "length [JArr [JNum (Fin 0), JNum (Fin 0)], JArr [JNum (Fin 10), JNum (Fin 0)]] < 3
   \<and> drawRing any_runtime (JArr [JArr [JNum (Fin 0), JNum (Fin 0)], JArr [JNum (Fin 10), JNum (Fin 0)]])
        0 (createCanvas 360 180) = Done (createCanvas 360 180)
   \<and> length [JArr [JNum (Fin 0), JNum (Fin 0)]] < 2
   \<and> drawLineStringPath any_runtime (Some (JArr [JArr [JNum (Fin 0), JNum (Fin 0)]]))
        (createCanvas 360 180) = Done (createCanvas 360 180)"
  using short_rings_and_lines_not_drawn
    [where pts = "[JArr [JNum (Fin 0), JNum (Fin 0)], JArr [JNum (Fin 10), JNum (Fin 0)]]"
       and cs = "[JArr [JNum (Fin 0), JNum (Fin 0)]]" and rt = any_runtime and i = 0
       and ctx = "createCanvas 360 180"]
  by simp

theorem unknown_geometry_type_ignored_witness:
  "getProp (Some (JObj [(''type'', JStr ''Point''), (''coordinates'', JArr [JNum (Fin 0), JNum (Fin 0)])]))
     ''type'' = Inr (Some (JStr ''Point''))
   \<and> drawGeometryPath any_runtime
       (Some (JObj [(''type'', JStr ''Point''), (''coordinates'', JArr [JNum (Fin 0), JNum (Fin 0)])]))
       (createCanvas 360 180) = Done (createCanvas 360 180)"
  using unknown_geometry_type_ignored
    [where geometry = "Some (JObj [(''type'', JStr ''Point''),
                                   (''coordinates'', JArr [JNum (Fin 0), JNum (Fin 0)])])"
       and t = "Some (JStr ''Point'')" and rt = any_runtime and ctx = "createCanvas 360 180"]
  by (simp add: own_property_def)

lemma projected_numbers:
  "projected rt ctx (JArr (JNum lon # JNum lat # rest)) =
     (num_mul (num_add lon (Fin 180)) (num_div (num_of_nat (width ctx)) (Fin 360)),
      num_mul (num_sub (Fin 90) lat) (num_div (num_of_nat (height ctx)) (Fin 180)))"
  by (simp add: projected_def nth_opt_def latLonToXY_numbers)

lemma createCanvas_size [simp]:
  "width (createCanvas w h) = w" "height (createCanvas w h) = h" "path (createCanvas w h) = []"
  by (simp_all add: createCanvas_def)

theorem polygon_ring_closed_subpath_witness:
  "2 \<le> length [JArr [JNum (Fin 10), JNum (Fin 0)], JArr [JNum (Fin 10), JNum (Fin 10)]]
   \<and> list_all wellformed
       [JArr [JNum (Fin 0), JNum (Fin 0)], JArr [JNum (Fin 10), JNum (Fin 0)],
        JArr [JNum (Fin 10), JNum (Fin 10)]]
   \<and> drawRing any_runtime
       (JArr [JArr [JNum (Fin 0), JNum (Fin 0)], JArr [JNum (Fin 10), JNum (Fin 0)],
              JArr [JNum (Fin 10), JNum (Fin 10)]]) 0 (createCanvas 360 180) =
     Done ((createCanvas 360 180)\<lparr>path :=
       [MoveTo (Fin 180) (Fin 90), LineTo (Fin 190) (Fin 90), LineTo (Fin 190) (Fin 80),
        ClosePath]\<rparr>)"
  using polygon_ring_closed_subpath
    [where p = "JArr [JNum (Fin 0), JNum (Fin 0)]"
       and ps = "[JArr [JNum (Fin 10), JNum (Fin 0)], JArr [JNum (Fin 10), JNum (Fin 10)]]"
       and rt = any_runtime and i = 0 and ctx = "createCanvas 360 180"]
  by (simp add: projected_numbers num_sub_def)

theorem malformed_entries_skipped_witness:
  "list_all (\<lambda>c. malformed c \<or> wellformed c)
     [JArr [JNum (Fin 0), JNum (Fin 0)], JNull, JArr [JNum (Fin 10), JNum (Fin 0)],
      JArr [JNum (Fin 10)], JArr [JNum (Fin 10), JNum (Fin 10)]]
   \<and> drawRing any_runtime
       (JArr [JArr [JNum (Fin 0), JNum (Fin 0)], JNull, JArr [JNum (Fin 10), JNum (Fin 0)],
              JArr [JNum (Fin 10)], JArr [JNum (Fin 10), JNum (Fin 10)]]) 0 (createCanvas 360 180) =
     Done ((createCanvas 360 180)\<lparr>path :=
       [MoveTo (Fin 180) (Fin 90), LineTo (Fin 190) (Fin 90), LineTo (Fin 190) (Fin 80),
        ClosePath]\<rparr>)
   \<and> drawLineStringPath any_runtime
       (Some (JArr [JArr [JNum (Fin 0), JNum (Fin 0)], JNull, JArr [JNum (Fin 10), JNum (Fin 0)],
              JArr [JNum (Fin 10)], JArr [JNum (Fin 10), JNum (Fin 10)]])) (createCanvas 360 180) =
     Done ((createCanvas 360 180)\<lparr>path :=
       [MoveTo (Fin 180) (Fin 90), LineTo (Fin 190) (Fin 90), LineTo (Fin 190) (Fin 80)]\<rparr>)"
  using malformed_entries_skipped
    [where cs = "[JArr [JNum (Fin 0), JNum (Fin 0)], JNull, JArr [JNum (Fin 10), JNum (Fin 0)],
                  JArr [JNum (Fin 10)], JArr [JNum (Fin 10), JNum (Fin 10)]]"
       and rt = any_runtime and i = 0 and ctx = "createCanvas 360 180"]
  by (simp add: projected_numbers num_sub_def)


lemma featurePath_triangle:
  "featurePath rt 360 180 (JObj [(''geometry'', triangle)]) =
     Some (Inr [MoveTo (Fin 180) (Fin 90), LineTo (Fin 190) (Fin 90), LineTo (Fin 190) (Fin 80),
                ClosePath])"
  by (simp add: featurePath_def own_property_def triangle_path) (simp add: triangle_def)

lemma featurePath_broken:
  "featurePath rt w h (JObj [(''geometry'', broken_polygon)]) = Some (Inl TypeError)"
  by (simp add: featurePath_def own_property_def broken_polygon_def drawGeometryPath_def
      drawPolygonPath_def)

theorem feature_errors_caught_witness:
  "getProp (Some (landData mixed)) ''features'' =
     Inr (Some (JArr [JObj [(''geometry'', triangle)], JObj [(''geometry'', broken_polygon)],
                      JObj [(''geometry'', triangle)]]))
   \<and> JNull \<notin> set [JObj [(''geometry'', triangle)], JObj [(''geometry'', broken_polygon)],
                    JObj [(''geometry'', triangle)]]
   \<and> (\<exists>s'. drawLandAreas any_runtime mixed = Done s'
         \<and> bitmap (offscreenCanvas s') =
             [Fill ''#90EE90'' [MoveTo (Fin 180) (Fin 90), LineTo (Fin 190) (Fin 90),
                                LineTo (Fin 190) (Fin 80), ClosePath],
              Fill ''#90EE90'' [MoveTo (Fin 180) (Fin 90), LineTo (Fin 190) (Fin 90),
                                LineTo (Fin 190) (Fin 80), ClosePath]]
         \<and> console s' = [Warn ''Error drawing land feature'' 1 TypeError])
   \<and> getProp (Some (outlineData mixed)) ''features'' =
     Inr (Some (JArr [JObj [(''geometry'', broken_polygon)], JObj [(''geometry'', triangle)]]))
   \<and> JNull \<notin> set [JObj [(''geometry'', broken_polygon)], JObj [(''geometry'', triangle)]]
   \<and> (\<exists>s'. drawCountryBorders any_runtime mixed = Done s'
         \<and> bitmap (offscreenCanvas s') =
             [Stroke ''#000000'' 1 [MoveTo (Fin 180) (Fin 90), LineTo (Fin 190) (Fin 90),
                                    LineTo (Fin 190) (Fin 80), ClosePath]]
         \<and> console s' = [Warn ''Error drawing country border'' 0 TypeError])"
proof -
  let ?tri = "[MoveTo (Fin 180) (Fin 90), LineTo (Fin 190) (Fin 90), LineTo (Fin 190) (Fin 80),
               ClosePath]"
  let ?fs = "[JObj [(''geometry'', triangle)], JObj [(''geometry'', broken_polygon)],
              JObj [(''geometry'', triangle)]]"
  let ?gs = "[JObj [(''geometry'', broken_polygon)], JObj [(''geometry'', triangle)]]"
  have f: "getProp (Some (landData mixed)) ''features'' = Inr (Some (JArr ?fs))"
    and g: "getProp (Some (outlineData mixed)) ''features'' = Inr (Some (JArr ?gs))"
    by (simp_all add: mixed_def initial_def own_property_def)
  have st: "width (offscreenCanvas mixed) = 360" "height (offscreenCanvas mixed) = 180"
    "bitmap (offscreenCanvas mixed) = []" "console mixed = []"
    by (simp_all add: mixed_def initial_def createCanvas_def)
  have dp: "drawnPaths any_runtime 360 180 ?fs = [?tri, ?tri]"
    "drawnPaths any_runtime 360 180 ?gs = [?tri]"
    by (simp_all add: drawnPaths_def featurePath_triangle featurePath_broken)
  have w: "warnings ''Error drawing land feature'' any_runtime 360 180 0 ?fs =
      [Warn ''Error drawing land feature'' 1 TypeError]"
    "warnings ''Error drawing country border'' any_runtime 360 180 0 ?gs =
      [Warn ''Error drawing country border'' 0 TypeError]"
    by (simp_all add: warnings_def featurePath_triangle featurePath_broken)
  show ?thesis
    using feature_errors_caught[where s = mixed and rt = any_runtime and fs = ?fs and gs = ?gs]
    by (simp add: f g st dp w)
qed

text \<open>
  The claim as stated, for every feature list, fails: reading \<open>feature.geometry\<close> of a
  \<open>null\<close> entry throws outside the \<open>try\<close> block, and the pass is abandoned before the
  well-formed feature that follows is drawn.
\<close>

theorem null_feature_aborts_pass:
  "drawLandAreas any_runtime null_entry_land =
     Thrown TypeError
       (null_entry_land\<lparr>offscreenCanvas :=
          (createCanvas 360 180)\<lparr>fillStyle := ''#90EE90'', strokeStyle := ''transparent''\<rparr>\<rparr>)
   \<and> drawnPaths any_runtime 360 180 [JNull, JObj [(''geometry'', triangle)]] =
     [[MoveTo (Fin 180) (Fin 90), LineTo (Fin 190) (Fin 90), LineTo (Fin 190) (Fin 80),
       ClosePath]]"
  by (simp add: drawLandAreas_def null_entry_land_def initial_def own_property_def
      drawLandFeature_def drawnPaths_def featurePath_triangle)
     (simp add: featurePath_def)

section \<open>The render cache\<close>

lemma valid_datasetD:
  assumes "valid_dataset d"
  obtains f where "getProp (Some d) ''features'' = Inr f" "\<not> truthy f"
  | fs where "getProp (Some d) ''features'' = Inr (Some (JArr fs))" "JNull \<notin> set fs"
  using assms unfolding valid_dataset_def
  by (auto split: sum.splits if_splits option.splits json.splits)

lemma drawLandAreas_valid:
  assumes "valid_dataset (landData s)"
  shows "\<exists>c l. drawLandAreas rt s = Done (s\<lparr>offscreenCanvas := c, console := l\<rparr>)"
  using assms
proof (rule valid_datasetD)
  fix f assume "getProp (Some (landData s)) ''features'' = Inr f" "\<not> truthy f"
  then have "drawLandAreas rt s =
     Done (s\<lparr>offscreenCanvas := offscreenCanvas s, console := console s\<rparr>)"
    by (simp add: drawLandAreas_def)
  then show ?thesis by blast
next
  fix fs assume "getProp (Some (landData s)) ''features'' = Inr (Some (JArr fs))" "JNull \<notin> set fs"
  from drawLandAreas_pass[OF this, of rt] show ?thesis by blast
qed

lemma drawCountryBorders_valid:
  assumes "valid_dataset (outlineData s)"
  shows "\<exists>c l. drawCountryBorders rt s = Done (s\<lparr>offscreenCanvas := c, console := l\<rparr>)"
  using assms
proof (rule valid_datasetD)
  fix f assume "getProp (Some (outlineData s)) ''features'' = Inr f" "\<not> truthy f"
  then have "drawCountryBorders rt s =
     Done (s\<lparr>offscreenCanvas := offscreenCanvas s, console := console s\<rparr>)"
    by (simp add: drawCountryBorders_def)
  then show ?thesis by blast
next
  fix fs assume "getProp (Some (outlineData s)) ''features'' = Inr (Some (JArr fs))" "JNull \<notin> set fs"
  from drawCountryBorders_pass[OF this, of rt] show ?thesis by blast
qed

lemma render2DMapOffscreen_rendered:
  "map2DRendered s \<Longrightarrow> render2DMapOffscreen rt s = Done s"
  by (simp add: render2DMapOffscreen_def)

lemma render2DMapOffscreen_valid:
  assumes "truthy (Some (landData s))" "truthy (Some (outlineData s))"
    and "valid_dataset (landData s)" "valid_dataset (outlineData s)" "\<not> map2DRendered s"
  shows "\<exists>c l. render2DMapOffscreen rt s =
     Done (s\<lparr>offscreenCanvas := c, console := l, map2DRendered := True\<rparr>)"
proof -
  define s2 where "s2 = (console_log ''Pre-rendering 2D map offscreen...'' s)
     \<lparr>offscreenCanvas := fillRect 0 0 (width (offscreenCanvas s)) (height (offscreenCanvas s))
        ((offscreenCanvas s)\<lparr>fillStyle := ''#4A90E2''\<rparr>)\<rparr>"
  have l2: "landData s2 = landData s" and o2: "outlineData s2 = outlineData s"
    by (simp_all add: s2_def console_log_def)
  obtain c3 l3 where 3: "drawLandAreas rt s2 = Done (s2\<lparr>offscreenCanvas := c3, console := l3\<rparr>)"
    using drawLandAreas_valid[of s2 rt] assms(3) l2 by auto
  obtain c4 l4 where 4: "drawCountryBorders rt (s2\<lparr>offscreenCanvas := c3, console := l3\<rparr>) =
     Done (s2\<lparr>offscreenCanvas := c4, console := l4\<rparr>)"
    using drawCountryBorders_valid[of "s2\<lparr>offscreenCanvas := c3, console := l3\<rparr>" rt] assms(4) o2
    by auto
  have "render2DMapOffscreen rt s =
     Done (s\<lparr>offscreenCanvas := c4,
             console := l4 @ [Log ''2D map pre-rendering completed''], map2DRendered := True\<rparr>)"
    using assms(1,2,5) 3 4
    by (simp add: render2DMapOffscreen_def Let_def s2_def console_log_def)
  then show ?thesis by blast
qed

text \<open>
  Claim C7, amended.  While the flag is set, \<open>render2DMapOffscreen\<close> changes nothing.  With
  both datasets loaded and valid (the feature list of each is absent or falsy, or an array
  with no \<open>null\<close> entry) and the flag not set, the render completes and sets the flag,
  leaves the datasets as they were, and a second render right after it changes nothing.
\<close>

theorem render_once_until_invalidated:
  "(map2DRendered s \<longrightarrow> render2DMapOffscreen rt s = Done s)
   \<and> (truthy (Some (landData s)) \<longrightarrow> truthy (Some (outlineData s)) \<longrightarrow>
      valid_dataset (landData s) \<longrightarrow> valid_dataset (outlineData s) \<longrightarrow> \<not> map2DRendered s \<longrightarrow>
      (\<exists>s'. render2DMapOffscreen rt s = Done s' \<and> map2DRendered s'
         \<and> landData s' = landData s \<and> outlineData s' = outlineData s
         \<and> render2DMapOffscreen rt s' = Done s'))"
proof (intro conjI impI)
  assume "map2DRendered s"
  then show "render2DMapOffscreen rt s = Done s" by (rule render2DMapOffscreen_rendered)
next
  assume a: "truthy (Some (landData s))" "truthy (Some (outlineData s))"
    "valid_dataset (landData s)" "valid_dataset (outlineData s)" "\<not> map2DRendered s"
  obtain c l where "render2DMapOffscreen rt s =
     Done (s\<lparr>offscreenCanvas := c, console := l, map2DRendered := True\<rparr>)"
    using render2DMapOffscreen_valid[OF a] by blast
  then show "\<exists>s'. render2DMapOffscreen rt s = Done s' \<and> map2DRendered s'
         \<and> landData s' = landData s \<and> outlineData s' = outlineData s
         \<and> render2DMapOffscreen rt s' = Done s'"
    by (simp add: render2DMapOffscreen_rendered)
qed


theorem render_once_until_invalidated_witness:
  "truthy (Some (landData loaded)) \<and> truthy (Some (outlineData loaded))
   \<and> valid_dataset (landData loaded) \<and> valid_dataset (outlineData loaded)
   \<and> \<not> map2DRendered loaded
   \<and> (\<exists>s'. render2DMapOffscreen any_runtime loaded = Done s' \<and> map2DRendered s'
         \<and> landData s' = landData loaded \<and> outlineData s' = outlineData loaded
         \<and> render2DMapOffscreen any_runtime s' = Done s')"
proof -
  have a: "truthy (Some (landData loaded))" "truthy (Some (outlineData loaded))"
    "valid_dataset (landData loaded)" "valid_dataset (outlineData loaded)"
    "\<not> map2DRendered loaded"
    by (simp_all add: loaded_def initial_def valid_dataset_def own_property_def)
  show ?thesis
    using render_once_until_invalidated[where s = loaded and rt = any_runtime] a by simp
qed

text \<open>
  The claim as stated, for all loaded datasets, fails: with a \<open>null\<close> entry in the land
  features the first render throws and the flag stays unset.
\<close>

theorem render_throws_on_null_feature:
  "truthy (Some (landData null_entry_loaded)) \<and> truthy (Some (outlineData null_entry_loaded))
   \<and> render2DMapOffscreen any_runtime null_entry_loaded =
     Thrown TypeError
       (null_entry_loaded\<lparr>
          offscreenCanvas := (createCanvas 360 180)\<lparr>fillStyle := ''#90EE90'',
            strokeStyle := ''transparent'', bitmap := [FillRect ''#4A90E2'' 0 0 360 180]\<rparr>,
          console := [Log ''Pre-rendering 2D map offscreen...'']\<rparr>)
   \<and> map2DRendered null_entry_loaded = False"
  by (simp add: null_entry_loaded_def initial_def render2DMapOffscreen_def Let_def
      console_log_def fillRect_def createCanvas_def drawLandAreas_def own_property_def
      drawLandFeature_def)

section \<open>Resize and the cache\<close>

lemma toggleSwitch_unrendered:
  assumes "\<not> map2DRendered s"
  shows "\<not> map2DRendered (toggleSwitch s)"
    and "filter is_blit (bitmap (canvas2D (toggleSwitch s))) = filter is_blit (bitmap (canvas2D s))"
  using assms
  by (simp_all add: toggleSwitch_def switchWork_def Let_def console_log_def cleanupCanvas2D_def
      clearRect_def fillRect_def fillText_def)

lemma handle_unrendered:
  assumes "\<not> map2DRendered s \<and> filter is_blit (bitmap (canvas2D s)) = []"
  shows "\<not> map2DRendered (handle e s) \<and> filter is_blit (bitmap (canvas2D (handle e s))) = []"
proof (cases e)
  case Click
  show ?thesis using assms by (simp add: Click toggle2D3D_def)
next
  case AnimationFrame
  show ?thesis
  proof (cases "\<exists>rest. animationFrames s = ToggleSwitch # rest")
    case True
    then obtain rest where r: "animationFrames s = ToggleSwitch # rest" by blast
    have "\<not> map2DRendered (s\<lparr>animationFrames := rest\<rparr>)" using assms by simp
    from toggleSwitch_unrendered[OF this] assms show ?thesis
      by (simp add: AnimationFrame r)
  next
    case False
    then have "handle AnimationFrame s = s"
      by (auto split: list.splits task.splits)
    then show ?thesis using assms by (simp add: AnimationFrame)
  qed
next
  case (Resize w h)
  show ?thesis
    by (simp add: Resize handleWindowResize_def Let_def setWidth_def setHeight_def
        createCanvas_def)
qed

lemma events_unrendered:
  assumes "\<not> map2DRendered s \<and> filter is_blit (bitmap (canvas2D s)) = []"
  shows "\<not> map2DRendered (foldl (\<lambda>t e. handle e t) s es)
     \<and> filter is_blit (bitmap (canvas2D (foldl (\<lambda>t e. handle e t) s es))) = []"
  using assms
proof (induction es arbitrary: s)
  case Nil
  then show ?case by simp
next
  case (Cons e es)
  from Cons.IH[OF handle_unrendered[OF Cons.prems, of e]] show ?case by simp
qed

lemma resize_unrendered:
  "\<not> map2DRendered (handleWindowResize nw nh s)
   \<and> filter is_blit (bitmap (canvas2D (handleWindowResize nw nh s))) = []"
  by (simp add: handleWindowResize_def Let_def setWidth_def setHeight_def createCanvas_def)

text \<open>
  Claim C8.  \<open>handleWindowResize\<close> always leaves \<open>map2DRendered\<close> false.  Whatever clicks,
  animation frames and further resizes follow, until a scheduled callback runs the flag
  stays false and nothing is copied from the offscreen canvas to the visible one.  When the
  2D map is showing and both datasets are loaded, the resize schedules the callback that
  renders and then displays.  When the globe is showing, the next toggle finds the flag
  false: it completes, draws the placeholder and schedules the same callback.  That
  callback calls \<open>render2DMapOffscreen\<close> before \<open>display2DMap\<close>.
\<close>

theorem resize_invalidates_cache:
  "map2DRendered (handleWindowResize nw nh s) = False
   \<and> \<not> map2DRendered (foldl (\<lambda>t e. handle e t) (handleWindowResize nw nh s) es)
   \<and> filter is_blit
       (bitmap (canvas2D (foldl (\<lambda>t e. handle e t) (handleWindowResize nw nh s) es))) = []
   \<and> (\<not> is3D s \<longrightarrow> truthy (Some (landData s)) \<longrightarrow> truthy (Some (outlineData s)) \<longrightarrow>
        timeouts (handleWindowResize nw nh s) = timeouts s @ [RenderThenDisplay])
   \<and> (is3D s \<longrightarrow>
        switchWork (handleWindowResize nw nh s) = Done (toggleSwitch (handleWindowResize nw nh s))
        \<and> is3D (toggleSwitch (handleWindowResize nw nh s)) = False
        \<and> timeouts (toggleSwitch (handleWindowResize nw nh s)) = timeouts s @ [RenderThenDisplay]
        \<and> bitmap (canvas2D (toggleSwitch (handleWindowResize nw nh s))) =
            [FillRect ''#4A90E2'' 0 0 nw nh,
             FillText ''white'' ''24px Arial'' ''center'' ''2D Map Loading...''
               (num_div (num_of_nat nw) (Fin 2)) (num_div (num_of_nat nh) (Fin 2))])
   \<and> runTask rt RenderThenDisplay t =
       (case render2DMapOffscreen rt t of
          Done t' \<Rightarrow> display2DMap t'
        | Thrown e t' \<Rightarrow> Thrown e t')"
proof -
  have 1: "map2DRendered (handleWindowResize nw nh s) = False"
    using resize_unrendered[of nw nh s] by simp
  have 2: "\<not> map2DRendered (foldl (\<lambda>t e. handle e t) (handleWindowResize nw nh s) es)
     \<and> filter is_blit
         (bitmap (canvas2D (foldl (\<lambda>t e. handle e t) (handleWindowResize nw nh s) es))) = []"
    using resize_unrendered by (rule events_unrendered)
  have 3: "\<not> is3D s \<longrightarrow> truthy (Some (landData s)) \<longrightarrow> truthy (Some (outlineData s)) \<longrightarrow>
        timeouts (handleWindowResize nw nh s) = timeouts s @ [RenderThenDisplay]"
    by (simp add: handleWindowResize_def Let_def)
  have 4: "is3D s \<longrightarrow>
        switchWork (handleWindowResize nw nh s) = Done (toggleSwitch (handleWindowResize nw nh s))
        \<and> is3D (toggleSwitch (handleWindowResize nw nh s)) = False
        \<and> timeouts (toggleSwitch (handleWindowResize nw nh s)) = timeouts s @ [RenderThenDisplay]
        \<and> bitmap (canvas2D (toggleSwitch (handleWindowResize nw nh s))) =
            [FillRect ''#4A90E2'' 0 0 nw nh,
             FillText ''white'' ''24px Arial'' ''center'' ''2D Map Loading...''
               (num_div (num_of_nat nw) (Fin 2)) (num_div (num_of_nat nh) (Fin 2))]"
    by (simp add: handleWindowResize_def Let_def toggleSwitch_def switchWork_def console_log_def
        setWidth_def setHeight_def createCanvas_def fillRect_def fillText_def)
  show ?thesis using 1 2 3 4 by simp
qed

theorem resize_invalidates_cache_witness:
  "is3D ((initial 360 180)\<lparr>map2DRendered := True\<rparr>)
   \<and> map2DRendered (handleWindowResize 720 360 ((initial 360 180)\<lparr>map2DRendered := True\<rparr>)) = False
   \<and> \<not> map2DRendered (foldl (\<lambda>t e. handle e t)
         (handleWindowResize 720 360 ((initial 360 180)\<lparr>map2DRendered := True\<rparr>))
         [Click, AnimationFrame, Click, AnimationFrame])
   \<and> timeouts (toggleSwitch (handleWindowResize 720 360 ((initial 360 180)\<lparr>map2DRendered := True\<rparr>)))
       = [RenderThenDisplay]
   \<and> bitmap (canvas2D (toggleSwitch
         (handleWindowResize 720 360 ((initial 360 180)\<lparr>map2DRendered := True\<rparr>)))) =
       [FillRect ''#4A90E2'' 0 0 720 360,
        FillText ''white'' ''24px Arial'' ''center'' ''2D Map Loading...'' (Fin 360) (Fin 180)]
   \<and> \<not> is3D (loaded\<lparr>is3D := False, map2DRendered := True\<rparr>)
   \<and> truthy (Some (landData (loaded\<lparr>is3D := False, map2DRendered := True\<rparr>)))
   \<and> truthy (Some (outlineData (loaded\<lparr>is3D := False, map2DRendered := True\<rparr>)))
   \<and> timeouts (handleWindowResize 720 360 (loaded\<lparr>is3D := False, map2DRendered := True\<rparr>)) =
       [RenderThenDisplay]"
proof -
  have a: "is3D ((initial 360 180)\<lparr>map2DRendered := True\<rparr>)"
    "timeouts ((initial 360 180)\<lparr>map2DRendered := True\<rparr>) = []"
    by (simp_all add: initial_def)
  have b: "\<not> is3D (loaded\<lparr>is3D := False, map2DRendered := True\<rparr>)"
    "truthy (Some (landData (loaded\<lparr>is3D := False, map2DRendered := True\<rparr>)))"
    "truthy (Some (outlineData (loaded\<lparr>is3D := False, map2DRendered := True\<rparr>)))"
    "timeouts (loaded\<lparr>is3D := False, map2DRendered := True\<rparr>) = []"
    "truthy (Some (landData loaded))" "truthy (Some (outlineData loaded))" "timeouts loaded = []"
    by (simp_all add: loaded_def initial_def)
  have n: "num_div (num_of_nat 720) (Fin 2) = Fin 360" "num_div (num_of_nat 360) (Fin 2) = Fin 180"
    by simp_all
  show ?thesis
    using resize_invalidates_cache
      [where s = "(initial 360 180)\<lparr>map2DRendered := True\<rparr>" and nw = 720 and nh = 360
         and rt = any_runtime and t = loaded and es = "[Click, AnimationFrame, Click, AnimationFrame]"]
      resize_invalidates_cache
      [where s = "loaded\<lparr>is3D := False, map2DRendered := True\<rparr>" and nw = 720 and nh = 360
         and rt = any_runtime and t = loaded and es = "[]"]
    by (simp add: a b n)
qed

section \<open>The toggle\<close>

text \<open>
  Claim C9.  When the \<open>try\<close> block of the toggle's frame callback throws, the callback
  still completes: the error is logged, and the button is enabled again with the label
  \<open>Toggle Failed - Try Again\<close>.
\<close>

theorem toggle_error_resets_button:
  "switchWork s = Thrown e s' \<longrightarrow>
     runTask rt ToggleSwitch s = Done (toggleSwitch s)
     \<and> toggleButton (toggleSwitch s) =
         \<lparr>disabled = False, textContent = ''Toggle Failed - Try Again''\<rparr>
     \<and> console (toggleSwitch s) = console s' @ [Error ''Error during toggle:'' e]"
  by (simp add: toggleSwitch_def)

theorem toggle_error_resets_button_witness:
  "switchWork cached_zero_size =
     Thrown InvalidStateError
       (cached_zero_size\<lparr>is3D := False, renderer_display := ''none'', canvas2D_display := ''block'',
          canvas2D := (createCanvas 0 0)\<lparr>bitmap := [ClearRect 0 0 0 0]\<rparr>,
          console := [Log ''Switching to 2D mode...'']\<rparr>)
   \<and> runTask any_runtime ToggleSwitch cached_zero_size = Done (toggleSwitch cached_zero_size)
   \<and> toggleButton (toggleSwitch cached_zero_size) =
         \<lparr>disabled = False, textContent = ''Toggle Failed - Try Again''\<rparr>
   \<and> console (toggleSwitch cached_zero_size) =
         [Log ''Switching to 2D mode...'', Error ''Error during toggle:'' InvalidStateError]"
proof -
  have sw: "switchWork cached_zero_size =
     Thrown InvalidStateError
       (cached_zero_size\<lparr>is3D := False, renderer_display := ''none'', canvas2D_display := ''block'',
          canvas2D := (createCanvas 0 0)\<lparr>bitmap := [ClearRect 0 0 0 0]\<rparr>,
          console := [Log ''Switching to 2D mode...'']\<rparr>)"
    by (simp add: cached_zero_size_def initial_def switchWork_def Let_def console_log_def
        display2DMap_def drawImage_def clearRect_def createCanvas_def)
  show ?thesis
    using toggle_error_resets_button[where s = cached_zero_size and e = InvalidStateError
        and rt = any_runtime] sw
    by simp
qed

end
